theory Spec2Isabelle
  imports Complex_Main "HOL-Library.AList" "HOL-Library.Multiset"
begin

section \<open>Multi-dimensional analyzer: shared data\<close>

text \<open>
  The development follows \<^verbatim>\<open>skills/code-refactoring-analysis/scripts/analyze_multidim.py\<close>.
  Python dictionaries used as records become HOL records, Python \<^verbatim>\<open>int\<close> is \<^typ>\<open>int\<close>,
  and text is \<^typ>\<open>string\<close> (characters are the code points below 256).
\<close>

datatype error = ValueError | IndexError | RecursionError

subsection \<open>Printing integers, as an f-string does\<close>

fun str_nat :: "nat \<Rightarrow> string" where
  "str_nat n =
     (if n < 10 then [char_of (48 + n)]
      else str_nat (n div 10) @ [char_of (48 + n mod 10)])"

declare str_nat.simps [simp del]

definition str_int :: "int \<Rightarrow> string" where
  "str_int i = (if i < 0 then CHR ''-'' # str_nat (nat (- i)) else str_nat (nat i))"

subsection \<open>The syntax tree of a parsed file\<close>

text \<open>
  Only the node classes the detectors test with \<^verbatim>\<open>isinstance\<close> are told apart; every other
  class is \<open>Other\<close> with its children. Children are kept in the order of the class's
  \<^verbatim>\<open>_fields\<close>, which is the order \<^verbatim>\<open>ast.iter_child_nodes\<close> yields them in. A class
  definition keeps its \<^verbatim>\<open>body\<close> apart from the children before it (bases, keywords) and
  after it (decorators). \<^verbatim>\<open>end_lineno\<close> is \<open>None\<close> when the node has no such attribute.
\<close>

datatype import_alias = Alias (alias_name: string) (asname: "string option")

datatype node =
    FunctionDef string int "node list"
  | AsyncFunctionDef string int "node list"
  | ClassDef string int "int option" "node list" "node list" "node list"
  | Name string
  | Attribute node string
  | Call node "node list"
  | Import int "import_alias list"
  | ImportFrom "string option" int "import_alias list"
  | Other "node list"

fun iter_child_nodes :: "node \<Rightarrow> node list" where
  "iter_child_nodes (FunctionDef name lineno cs) = cs"
| "iter_child_nodes (AsyncFunctionDef name lineno cs) = cs"
| "iter_child_nodes (ClassDef name lineno end_lineno pre body post) = pre @ body @ post"
| "iter_child_nodes (Name ident) = []"
| "iter_child_nodes (Attribute v attr) = [v]"
| "iter_child_nodes (Call func args) = func # args"
| "iter_child_nodes (Import lineno names) = []"
| "iter_child_nodes (ImportFrom modname lineno names) = []"
| "iter_child_nodes (Other cs) = cs"

lemma sum_list_Suc_size: "sum_list (map (\<lambda>x. Suc (f x)) xs) = size_list f xs"
  by (induction xs) auto

lemma size_iter_child_nodes:
  "sum_list (map (\<lambda>c. Suc (size c)) (iter_child_nodes n)) < Suc (size n)"
  by (cases n) (simp_all add: sum_list_Suc_size)

text \<open>
  \<^verbatim>\<open>ast.walk\<close>: a queue starts with the root; the first node is taken off, its children are
  put at the end, and the node is yielded (breadth first).
\<close>

function walk_todo :: "node list \<Rightarrow> node list" where
  "walk_todo [] = []"
| "walk_todo (n # todo) = n # walk_todo (todo @ iter_child_nodes n)"
  by pat_completeness auto
termination
proof (relation "measure (\<lambda>todo. sum_list (map (\<lambda>c. Suc (size c)) todo))")
  fix n :: node and todo :: "node list"
  from size_iter_child_nodes [of n]
  show "(todo @ iter_child_nodes n, n # todo)
          \<in> measure (\<lambda>todo. sum_list (map (\<lambda>c. Suc (size c)) todo))"
    by simp
qed simp

definition walk :: "node \<Rightarrow> node list" where
  "walk n = walk_todo [n]"

text \<open>
  A file of the project as the detectors see it: its path relative to the project, the lines
  \<^verbatim>\<open>readlines\<close> returns, and the tree \<^verbatim>\<open>ast.parse\<close> returns. \<open>None\<close> stands for the
  exception that \<^verbatim>\<open>open\<close>, the decoding or the parser raises; every detector catches it and
  continues with the next file.
\<close>

record source_file =
  relative_path :: string
  file_lines :: "string list option"
  tree :: "node option"

section \<open>God classes\<close>

record god_class =
  gc_file :: string
  gc_class :: string
  gc_line :: int
  gc_method_count :: int
  gc_class_lines :: int
  gc_violation :: string
  gc_message :: string
  gc_severity :: string

fun is_method :: "node \<Rightarrow> bool" where
  "is_method (FunctionDef name lineno cs) = True"
| "is_method (AsyncFunctionDef name lineno cs) = True"
| "is_method n = False"

definition method_count :: "node list \<Rightarrow> int" where
  "method_count body = int (length (filter is_method body))"

definition class_lines :: "int \<Rightarrow> int option \<Rightarrow> int" where
  "class_lines lineno end_lineno =
     (case end_lineno of Some e \<Rightarrow> e - lineno + 1 | None \<Rightarrow> 0)"

definition god_class_issue :: "string \<Rightarrow> string \<Rightarrow> int \<Rightarrow> int \<Rightarrow> int \<Rightarrow> god_class" where
  "god_class_issue rel name lineno mc cl =
     \<lparr>gc_file = rel, gc_class = name, gc_line = lineno, gc_method_count = mc,
      gc_class_lines = cl, gc_violation = ''Single Responsibility Principle'',
      gc_message = ''Class has '' @ str_int mc @ '' methods and '' @ str_int cl
        @ '' lines - consider splitting'',
      gc_severity = ''medium''\<rparr>"

text \<open>The loop over \<^verbatim>\<open>ast.walk(tree)\<close> of one file, appending to \<^verbatim>\<open>god_classes\<close>.\<close>

fun god_classes_walk :: "string \<Rightarrow> node list \<Rightarrow> god_class list \<Rightarrow> god_class list" where
  "god_classes_walk rel [] god_classes = god_classes"
| "god_classes_walk rel (ClassDef name lineno end_lineno pre body post # ns) god_classes =
     (let mc = method_count body; cl = class_lines lineno end_lineno
      in if mc > 20 \<or> cl > 500
         then god_classes_walk rel ns (god_classes @ [god_class_issue rel name lineno mc cl])
         else god_classes_walk rel ns god_classes)"
| "god_classes_walk rel (n # ns) god_classes = god_classes_walk rel ns god_classes"

fun find_god_classes_loop :: "source_file list \<Rightarrow> god_class list \<Rightarrow> god_class list" where
  "find_god_classes_loop [] god_classes = god_classes"
| "find_god_classes_loop (f # fs) god_classes =
     (case tree f of
        None \<Rightarrow> find_god_classes_loop fs god_classes
      | Some t \<Rightarrow>
          find_god_classes_loop fs (god_classes_walk (relative_path f) (walk t) god_classes))"

definition find_god_classes :: "source_file list \<Rightarrow> god_class list" where
  "find_god_classes python_files = find_god_classes_loop python_files []"








section \<open>Tight coupling\<close>

record coupling_issue =
  ci_file :: string
  ci_class :: string
  ci_line :: int
  ci_instantiations :: int
  ci_message :: string
  ci_severity :: string

text \<open>\<^verbatim>\<open>str.isupper\<close> of a one-character string, for the code points below 256.\<close>

definition isupper :: "char \<Rightarrow> bool" where
  "isupper c =
     (let k = (of_char c :: nat)
      in (65 \<le> k \<and> k \<le> 90) \<or> (192 \<le> k \<and> k \<le> 214) \<or> (216 \<le> k \<and> k \<le> 222))"

text \<open>
  The loop over \<^verbatim>\<open>ast.walk(item)\<close> of one initializer: every call whose function is a name
  with an upper-case first character adds one to the counter. \<^verbatim>\<open>child.func.id[0]\<close> raises
  \<^verbatim>\<open>IndexError\<close> on an empty identifier.
\<close>

fun count_instantiations :: "node list \<Rightarrow> int \<Rightarrow> error + int" where
  "count_instantiations [] k = Inr k"
| "count_instantiations (Call (Name ident) args # ns) k =
     (case ident of
        [] \<Rightarrow> Inl IndexError
      | c # cs \<Rightarrow>
          if isupper c then count_instantiations ns (k + 1) else count_instantiations ns k)"
| "count_instantiations (n # ns) k = count_instantiations ns k"

text \<open>The loop over \<^verbatim>\<open>node.body\<close>, looking for \<^verbatim>\<open>ast.FunctionDef\<close> items named \<^verbatim>\<open>__init__\<close>.\<close>

fun init_instantiations :: "node list \<Rightarrow> int \<Rightarrow> error + int" where
  "init_instantiations [] k = Inr k"
| "init_instantiations (FunctionDef name lineno cs # items) k =
     (if name = ''__init__''
      then (case count_instantiations (walk (FunctionDef name lineno cs)) k of
              Inl e \<Rightarrow> Inl e
            | Inr k' \<Rightarrow> init_instantiations items k')
      else init_instantiations items k)"
| "init_instantiations (item # items) k = init_instantiations items k"

definition coupling_issue_of :: "string \<Rightarrow> string \<Rightarrow> int \<Rightarrow> int \<Rightarrow> coupling_issue" where
  "coupling_issue_of rel name lineno k =
     \<lparr>ci_file = rel, ci_class = name, ci_line = lineno, ci_instantiations = k,
      ci_message = ''Class creates '' @ str_int k
        @ '' dependencies in __init__ - consider dependency injection'',
      ci_severity = ''medium''\<rparr>"

text \<open>
  The loop over \<^verbatim>\<open>ast.walk(tree)\<close> of one file. An exception leaves the loop: the handler
  of the file loop continues with the next file, and the issues appended so far stay.
\<close>

fun tight_coupling_walk ::
  "string \<Rightarrow> node list \<Rightarrow> coupling_issue list \<Rightarrow> coupling_issue list" where
  "tight_coupling_walk rel [] coupling_issues = coupling_issues"
| "tight_coupling_walk rel (ClassDef name lineno end_lineno pre body post # ns) coupling_issues =
     (case init_instantiations body 0 of
        Inl e \<Rightarrow> coupling_issues
      | Inr k \<Rightarrow>
          if k > 5
          then tight_coupling_walk rel ns (coupling_issues @ [coupling_issue_of rel name lineno k])
          else tight_coupling_walk rel ns coupling_issues)"
| "tight_coupling_walk rel (n # ns) coupling_issues = tight_coupling_walk rel ns coupling_issues"

fun find_tight_coupling_loop ::
  "source_file list \<Rightarrow> coupling_issue list \<Rightarrow> coupling_issue list" where
  "find_tight_coupling_loop [] coupling_issues = coupling_issues"
| "find_tight_coupling_loop (f # fs) coupling_issues =
     (case tree f of
        None \<Rightarrow> find_tight_coupling_loop fs coupling_issues
      | Some t \<Rightarrow>
          find_tight_coupling_loop fs
            (tight_coupling_walk (relative_path f) (walk t) coupling_issues))"

definition find_tight_coupling :: "source_file list \<Rightarrow> coupling_issue list" where
  "find_tight_coupling python_files = find_tight_coupling_loop python_files []"

text \<open>
  The constructor names instantiated in the initializers of a class body, one entry per call
  site, in the order the counter meets them.
\<close>

fun capitalized_calls :: "node list \<Rightarrow> string list" where
  "capitalized_calls [] = []"
| "capitalized_calls (Call (Name ident) args # ns) =
     (case ident of
        [] \<Rightarrow> capitalized_calls ns
      | c # cs \<Rightarrow> if isupper c then ident # capitalized_calls ns else capitalized_calls ns)"
| "capitalized_calls (n # ns) = capitalized_calls ns"

fun instantiated_names :: "node list \<Rightarrow> string list" where
  "instantiated_names [] = []"
| "instantiated_names (FunctionDef name lineno cs # items) =
     (if name = ''__init__''
      then capitalized_calls (walk (FunctionDef name lineno cs)) @ instantiated_names items
      else instantiated_names items)"
| "instantiated_names (item # items) = instantiated_names items"

lemma count_instantiations_calls:
  "count_instantiations ns k = Inr k' \<Longrightarrow> k' = k + int (length (capitalized_calls ns))"
  by (induction ns k rule: count_instantiations.induct)
     (auto split: list.splits if_splits)

lemma init_instantiations_names:
  "init_instantiations items k = Inr k' \<Longrightarrow> k' = k + int (length (instantiated_names items))"
  by (induction items k rule: init_instantiations.induct)
     (auto split: sum.splits if_splits dest: count_instantiations_calls)

text \<open>
  Claim C7, as amended. The counter adds one per call site, so a name instantiated several
  times counts several times: when the count of a class does not raise, it is the number of
  capitalized call sites in the initializers, and the class is flagged, once, exactly when
  that number is above 5.
\<close>

theorem tight_coupling_counts_call_sites:
  "init_instantiations body 0 = Inr k \<Longrightarrow>
     k = int (length (instantiated_names body))
     \<and> tight_coupling_walk rel [ClassDef name lineno end_lineno pre body post] acc
         = acc @ (if 5 < length (instantiated_names body)
                  then [coupling_issue_of rel name lineno k] else [])"
  by (auto dest: init_instantiations_names)

theorem tight_coupling_counts_call_sites_witness:
  "init_instantiations [FunctionDef ''__init__'' 2 (replicate 6 (Call (Name ''Foo'') []))] 0
     = Inr 6
   \<and> (6::int) = int (length (instantiated_names
         [FunctionDef ''__init__'' 2 (replicate 6 (Call (Name ''Foo'') []))]))
   \<and> tight_coupling_walk ''a.py''
         [ClassDef ''C'' 1 (Some 8) []
            [FunctionDef ''__init__'' 2 (replicate 6 (Call (Name ''Foo'') []))] []] []
       = [coupling_issue_of ''a.py'' ''C'' 1 6]"
proof -
  have h: "init_instantiations
             [FunctionDef ''__init__'' 2 (replicate 6 (Call (Name ''Foo'') []))] 0 = Inr 6"
    by (simp add: walk_def isupper_def eval_nat_numeral)
  from tight_coupling_counts_call_sites [OF h, of "''a.py''" "''C''" 1 "Some 8" "[]" "[]" "[]"] h
  show ?thesis by simp
qed

text \<open>
  Claim C7 as stated fails: an initializer that instantiates the one name \<open>Foo\<close> six times
  is flagged, although a single distinct constructor name is instantiated.
\<close>

theorem tight_coupling_distinct_counterexample:
  "find_tight_coupling
     [\<lparr>relative_path = ''a.py'', file_lines = None,
       tree = Some (ClassDef ''C'' 1 (Some 8) []
                [FunctionDef ''__init__'' 2 (replicate 6 (Call (Name ''Foo'') []))] [])\<rparr>]
     = [coupling_issue_of ''a.py'' ''C'' 1 6]
   \<and> \<not> 5 < length (remdups (instantiated_names
           [FunctionDef ''__init__'' 2 (replicate 6 (Call (Name ''Foo'') []))]))"
  by (simp add: find_tight_coupling_def walk_def isupper_def eval_nat_numeral)

section \<open>Tool tracking and confidence\<close>

text \<open>
  The analyzer's tracking state. \<^verbatim>\<open>tools_failed\<close> holds a tool name and a reason per entry.
  The confidence is a Python float; it is modelled by the exact rational, which the float
  arithmetic followed by \<^verbatim>\<open>round(_, 2)\<close> represents: every value is a multiple of 0.05.
\<close>

record tracking =
  tools_used :: "string list"
  tools_failed :: "(string \<times> string) list"
  files_analyzed :: nat
  files_skipped :: nat

record meta =
  meta_tools_used :: "string list"
  meta_tools_failed :: "string list"
  coverage_files_analyzed :: nat
  coverage_files_skipped :: nat
  confidence :: rat

definition track_tool :: "string \<Rightarrow> bool \<Rightarrow> string option \<Rightarrow> tracking \<Rightarrow> tracking" where
  "track_tool tool_name success reason self =
     (if success
      then (if tool_name \<notin> set (tools_used self)
            then self\<lparr>tools_used := tools_used self @ [tool_name]\<rparr> else self)
      else (if tool_name \<notin> set (map fst (tools_failed self))
            then self\<lparr>tools_failed := tools_failed self
                   @ [(tool_name, case reason of None \<Rightarrow> ''unknown''
                                  | Some r \<Rightarrow> if r = [] then ''unknown'' else r)]\<rparr>
            else self))"

text \<open>\<^verbatim>\<open>round(x, 2)\<close>: to the nearest hundredth, a tie going to the even one.\<close>

definition round_half_even :: "rat \<Rightarrow> int" where
  "round_half_even x =
     (let f = \<lfloor>x\<rfloor>; d = x - of_int f
      in if d < 1 / 2 then f else if 1 / 2 < d then f + 1 else if even f then f else f + 1)"

definition round2 :: "rat \<Rightarrow> rat" where
  "round2 x = of_int (round_half_even (x * 100)) / 100"

definition expected_tools :: "string list" where
  "expected_tools = [''radon'', ''bandit'', ''pylint'', ''pydeps'']"

definition finalize_meta :: "tracking \<Rightarrow> meta" where
  "finalize_meta self =
     (let available_count = int (length (filter (\<lambda>t. t \<in> set (tools_used self)) expected_tools));
          failed_count = int (length (tools_failed self))
      in \<lparr>meta_tools_used = tools_used self,
          meta_tools_failed = map fst (tools_failed self),
          coverage_files_analyzed = files_analyzed self,
          coverage_files_skipped = files_skipped self,
          confidence = round2 (max (1 / 2)
            (1 - of_int failed_count * (1 / 10) - of_int (4 - available_count) * (1 / 20)))\<rparr>)"





section \<open>Priority actions\<close>

text \<open>
  \<^verbatim>\<open>results['dimensions']\<close> is a dictionary from dimension names to result dictionaries, in
  insertion order: an association list. Of a result only \<^verbatim>\<open>score\<close> is read here.
\<close>

record dimension_result =
  score :: int

record priority_action =
  pa_dimension :: string
  pa_priority :: string
  pa_score :: int
  pa_action :: string

fun priority_actions_loop ::
  "(string \<times> dimension_result) list \<Rightarrow> priority_action list \<Rightarrow> priority_action list" where
  "priority_actions_loop [] actions = actions"
| "priority_actions_loop ((dimension, data) # rest) actions =
     (if score data < 60
      then priority_actions_loop rest (actions @
             [\<lparr>pa_dimension = dimension, pa_priority = ''high'', pa_score = score data,
               pa_action = ''Address critical '' @ dimension @ '' issues immediately''\<rparr>])
      else if score data < 75
      then priority_actions_loop rest (actions @
             [\<lparr>pa_dimension = dimension, pa_priority = ''medium'', pa_score = score data,
               pa_action = ''Improve '' @ dimension @ '' in next iteration''\<rparr>])
      else priority_actions_loop rest actions)"

text \<open>\<^verbatim>\<open>list.sort\<close> is stable, as the insertion sort \<^const>\<open>sort_key\<close> is.\<close>

definition generate_priority_actions ::
  "(string \<times> dimension_result) list \<Rightarrow> priority_action list" where
  "generate_priority_actions dimensions =
     take 5 (sort_key pa_score (priority_actions_loop dimensions []))"

definition all_dimensions :: "string list" where
  "all_dimensions =
     [''maintainability'', ''performance'', ''security'', ''scalability'', ''reusability'']"

fun action_of :: "string \<times> dimension_result \<Rightarrow> priority_action list" where
  "action_of (dimension, data) =
     (if score data < 60
      then [\<lparr>pa_dimension = dimension, pa_priority = ''high'', pa_score = score data,
             pa_action = ''Address critical '' @ dimension @ '' issues immediately''\<rparr>]
      else if score data < 75
      then [\<lparr>pa_dimension = dimension, pa_priority = ''medium'', pa_score = score data,
             pa_action = ''Improve '' @ dimension @ '' in next iteration''\<rparr>]
      else [])"

lemma priority_actions_loop_concat:
  "priority_actions_loop ds acc = acc @ concat (map action_of ds)"
  by (induction ds acc rule: priority_actions_loop.induct) simp_all

lemma length_concat_action_of: "length (concat (map action_of ds)) \<le> length ds"
  by (induction ds) (auto split: if_splits)

lemma distinct_names_length:
  assumes "distinct (map fst ds)" and "set (map fst ds) \<subseteq> set all_dimensions"
  shows "length ds \<le> 5"
proof -
  have "length ds = card (set (map fst ds))"
    using assms(1) by (metis distinct_card length_map)
  also have "\<dots> \<le> card (set all_dimensions)"
    using assms(2) by (intro card_mono) simp_all
  also have "\<dots> \<le> length all_dimensions"
    by (rule card_length)
  also have "\<dots> = 5"
    by (simp add: all_dimensions_def)
  finally show ?thesis .
qed

lemma set_generate_priority_actions:
  assumes "distinct (map fst ds)" and "set (map fst ds) \<subseteq> set all_dimensions"
  shows "set (generate_priority_actions ds) = (\<Union>e \<in> set ds. set (action_of e))"
proof -
  have "length (sort_key pa_score (priority_actions_loop ds [])) \<le> 5"
    using distinct_names_length [OF assms] length_concat_action_of [of ds]
    by (simp add: priority_actions_loop_concat)
  then show ?thesis
    by (simp add: generate_priority_actions_def priority_actions_loop_concat)
qed

lemma action_of_dimension: "a \<in> set (action_of (d, r)) \<Longrightarrow> pa_dimension a = d \<and> pa_score a = score r"
  by (auto split: if_splits)

text \<open>
  Claim C9. For the dimensions of a run (distinct names among the five), a dimension has a
  "high" action exactly when its score is below 60, a "medium" action exactly when its score
  is at least 60 and below 75, and no action when its score is at least 75; every action
  carries the score of its dimension; the list is sorted by ascending score and has at most
  5 entries.
\<close>

theorem generate_priority_actions_thresholds:
  assumes "distinct (map fst ds)" and "set (map fst ds) \<subseteq> set all_dimensions"
  shows "(\<forall>(d, r) \<in> set ds.
            ((\<exists>a \<in> set (generate_priority_actions ds).
                 pa_dimension a = d \<and> pa_priority a = ''high'') \<longleftrightarrow> score r < 60)
          \<and> ((\<exists>a \<in> set (generate_priority_actions ds).
                 pa_dimension a = d \<and> pa_priority a = ''medium'') \<longleftrightarrow> 60 \<le> score r \<and> score r < 75)
          \<and> (75 \<le> score r \<longrightarrow> (\<forall>a \<in> set (generate_priority_actions ds). pa_dimension a \<noteq> d)))
         \<and> (\<forall>a \<in> set (generate_priority_actions ds).
               \<exists>r. (pa_dimension a, r) \<in> set ds \<and> pa_score a = score r)
         \<and> sorted (map pa_score (generate_priority_actions ds))
         \<and> length (generate_priority_actions ds) \<le> 5"
proof -
  note S = set_generate_priority_actions [OF assms]
  have uniq: "r' = r" if "(d, r) \<in> set ds" and "(d, r') \<in> set ds" for d r r'
    using that assms(1) by (meson eq_key_imp_eq_value)
  have own: "set (action_of (d, r)) = {a \<in> set (generate_priority_actions ds). pa_dimension a = d}"
    if "(d, r) \<in> set ds" for d r
  proof (intro set_eqI iffI)
    fix a assume "a \<in> set (action_of (d, r))"
    with that show "a \<in> {a \<in> set (generate_priority_actions ds). pa_dimension a = d}"
      unfolding S using action_of_dimension [of a d r] by blast
  next
    fix a assume "a \<in> {a \<in> set (generate_priority_actions ds). pa_dimension a = d}"
    then obtain d' r' where e: "(d', r') \<in> set ds" and a: "a \<in> set (action_of (d', r'))"
      and d: "pa_dimension a = d"
      unfolding S by auto
    from a d have "d' = d" using action_of_dimension by blast
    with e that uniq have "r' = r" by blast
    with a \<open>d' = d\<close> show "a \<in> set (action_of (d, r))" by simp
  qed
  have A: "\<forall>(d, r) \<in> set ds.
            ((\<exists>a \<in> set (generate_priority_actions ds).
                 pa_dimension a = d \<and> pa_priority a = ''high'') \<longleftrightarrow> score r < 60)
          \<and> ((\<exists>a \<in> set (generate_priority_actions ds).
                 pa_dimension a = d \<and> pa_priority a = ''medium'') \<longleftrightarrow> 60 \<le> score r \<and> score r < 75)
          \<and> (75 \<le> score r \<longrightarrow> (\<forall>a \<in> set (generate_priority_actions ds). pa_dimension a \<noteq> d))"
  proof (clarify)
    fix d r assume m: "(d, r) \<in> set ds"
    have *: "(\<exists>a \<in> set (generate_priority_actions ds). pa_dimension a = d \<and> P a)
              \<longleftrightarrow> (\<exists>a \<in> set (action_of (d, r)). P a)" for P
      unfolding own [OF m] by auto
    have **: "(\<forall>a \<in> set (generate_priority_actions ds). pa_dimension a \<noteq> d)
              \<longleftrightarrow> set (action_of (d, r)) = {}"
      unfolding own [OF m] by auto
    show "((\<exists>a \<in> set (generate_priority_actions ds).
                 pa_dimension a = d \<and> pa_priority a = ''high'') \<longleftrightarrow> score r < 60)
          \<and> ((\<exists>a \<in> set (generate_priority_actions ds).
                 pa_dimension a = d \<and> pa_priority a = ''medium'') \<longleftrightarrow> 60 \<le> score r \<and> score r < 75)
          \<and> (75 \<le> score r \<longrightarrow> (\<forall>a \<in> set (generate_priority_actions ds). pa_dimension a \<noteq> d))"
      unfolding * ** by simp
  qed
  have B: "\<forall>a \<in> set (generate_priority_actions ds).
               \<exists>r. (pa_dimension a, r) \<in> set ds \<and> pa_score a = score r"
    unfolding S using action_of_dimension by fastforce
  have C: "sorted (map pa_score (generate_priority_actions ds))"
    by (simp add: generate_priority_actions_def take_map [symmetric] sorted_wrt_take)
  have D: "length (generate_priority_actions ds) \<le> 5"
    by (simp add: generate_priority_actions_def)
  from A B C D show ?thesis by blast
qed

theorem generate_priority_actions_thresholds_witness:
  "distinct (map fst [(''maintainability'', \<lparr>score = 0\<rparr>), (''performance'', \<lparr>score = 60\<rparr>),
      (''security'', \<lparr>score = 75\<rparr>), (''scalability'', \<lparr>score = 59\<rparr>)])
   \<and> set (map fst [(''maintainability'', \<lparr>score = 0\<rparr>), (''performance'', \<lparr>score = 60\<rparr>),
      (''security'', \<lparr>score = 75\<rparr>), (''scalability'', \<lparr>score = 59\<rparr>)]) \<subseteq> set all_dimensions
   \<and> sorted (map pa_score (generate_priority_actions
        [(''maintainability'', \<lparr>score = 0\<rparr>), (''performance'', \<lparr>score = 60\<rparr>),
         (''security'', \<lparr>score = 75\<rparr>), (''scalability'', \<lparr>score = 59\<rparr>)]))
   \<and> map pa_dimension (generate_priority_actions
        [(''maintainability'', \<lparr>score = 0\<rparr>), (''performance'', \<lparr>score = 60\<rparr>),
         (''security'', \<lparr>score = 75\<rparr>), (''scalability'', \<lparr>score = 59\<rparr>)])
       = [''maintainability'', ''scalability'', ''performance'']"
proof -
  let ?ds = "[(''maintainability'', \<lparr>score = 0\<rparr>), (''performance'', \<lparr>score = 60\<rparr>),
      (''security'', \<lparr>score = 75\<rparr>), (''scalability'', \<lparr>score = 59\<rparr>)]"
  have h1: "distinct (map fst ?ds)" by simp
  have h2: "set (map fst ?ds) \<subseteq> set all_dimensions" by (simp add: all_dimensions_def)
  have v: "map pa_dimension (generate_priority_actions ?ds)
       = [''maintainability'', ''scalability'', ''performance'']"
    by (simp add: generate_priority_actions_def)
  from generate_priority_actions_thresholds [OF h1 h2]
  have "sorted (map pa_score (generate_priority_actions ?ds))" by blast
  with h1 h2 v show ?thesis by blast
qed

section \<open>Circular dependencies\<close>

text \<open>
  The import graph is a dictionary from module names to the list of imported names, iterated
  in insertion order: an association list. \<^verbatim>\<open>visited\<close> and \<^verbatim>\<open>rec_stack\<close> are the two sets
  the nested function \<^verbatim>\<open>dfs\<close> shares with its caller; they are passed and returned.
\<close>

type_synonym import_graph = "(string \<times> string list) list"

type_synonym dfs_state = "string set \<times> string set"

definition modules :: "import_graph \<Rightarrow> string set" where
  "modules import_graph = fst ` set import_graph"

definition imports_of :: "import_graph \<Rightarrow> string \<Rightarrow> string list" where
  "imports_of import_graph m = (case map_of import_graph m of None \<Rightarrow> [] | Some is \<Rightarrow> is)"

text \<open>\<^verbatim>\<open>list.index\<close>; \<open>None\<close> is its \<^verbatim>\<open>ValueError\<close>.\<close>

fun index_of :: "'a list \<Rightarrow> 'a \<Rightarrow> nat option" where
  "index_of [] x = None"
| "index_of (y # ys) x = (if y = x then Some 0 else map_option Suc (index_of ys x))"

text \<open>The truth value of \<^verbatim>\<open>if cycle:\<close>, false for \<^verbatim>\<open>None\<close> and for the empty list.\<close>

fun truthy :: "string list option \<Rightarrow> bool" where
  "truthy None = False"
| "truthy (Some c) = (c \<noteq> [])"

text \<open>
  \<^verbatim>\<open>dfs\<close> and its loop over the imports of a module. Every call of \<^verbatim>\<open>dfs\<close> takes a
  frame of the interpreter, one per module on the search path, and the source neither bounds
  the depth nor changes the interpreter's recursion limit. The first argument is the number
  of nested calls of \<^verbatim>\<open>dfs\<close> the interpreter still allows: a call with no frame left
  raises \<^verbatim>\<open>RecursionError\<close>, which nothing catches. The result is the exception raised, or
  the returned cycle with the two sets as the call left them.
\<close>

fun dfs :: "nat \<Rightarrow> import_graph \<Rightarrow> string \<Rightarrow> string list \<Rightarrow> dfs_state
              \<Rightarrow> error + string list option \<times> dfs_state"
  and dfs_imports :: "nat \<Rightarrow> import_graph \<Rightarrow> string \<Rightarrow> string list \<Rightarrow> string list \<Rightarrow> dfs_state
              \<Rightarrow> error + string list option \<times> dfs_state" where
  "dfs 0 import_graph m path s = Inl RecursionError"
| "dfs (Suc frames) import_graph m path (visited, rec_stack) =
     (if m \<in> rec_stack
      then (case index_of path m of
              None \<Rightarrow> Inl ValueError
            | Some cycle_start \<Rightarrow> Inr (Some (drop cycle_start path), (visited, rec_stack)))
      else if m \<in> visited then Inr (None, (visited, rec_stack))
      else dfs_imports frames import_graph m (path @ [m]) (imports_of import_graph m)
             (insert m visited, insert m rec_stack))"
| "dfs_imports frames import_graph m path [] (visited, rec_stack) =
     Inr (None, (visited, rec_stack - {m}))"
| "dfs_imports frames import_graph m path (imported # rest) s =
     (if imported \<in> modules import_graph
      then (case dfs frames import_graph imported path s of
              Inl e \<Rightarrow> Inl e
            | Inr (cycle, s') \<Rightarrow>
                if truthy cycle then Inr (cycle, s')
                else dfs_imports frames import_graph m path rest s')
      else dfs_imports frames import_graph m path rest s)"

record circular_dependency =
  cd_cycle :: "string list"
  cd_message :: string
  cd_severity :: string

text \<open>The separator of the message is an arrow, U+2192, written here in UTF-8.\<close>

definition arrow :: string where
  "arrow = [CHR '' '', CHR 0xE2, CHR 0x86, CHR 0x92, CHR '' '']"

fun join :: "string \<Rightarrow> string list \<Rightarrow> string" where
  "join sep [] = []"
| "join sep [x] = x"
| "join sep (x # y # ys) = x @ sep @ join sep (y # ys)"

definition circular_dependency_of :: "string list \<Rightarrow> circular_dependency" where
  "circular_dependency_of cycle =
     \<lparr>cd_cycle = cycle,
      cd_message = ''Circular dependency: '' @ join arrow cycle @ arrow @ hd cycle,
      cd_severity = ''high''\<rparr>"

fun detect_loop :: "nat \<Rightarrow> import_graph \<Rightarrow> string list \<Rightarrow> dfs_state
      \<Rightarrow> circular_dependency list \<Rightarrow> error + circular_dependency list" where
  "detect_loop frames import_graph [] s circular_deps = Inr circular_deps"
| "detect_loop frames import_graph (m # rest) (visited, rec_stack) circular_deps =
     (if m \<notin> visited
      then (case dfs frames import_graph m [] (visited, rec_stack) of
              Inl e \<Rightarrow> Inl e
            | Inr (cycle, s') \<Rightarrow>
                if truthy cycle
                then detect_loop frames import_graph rest s'
                       (circular_deps @ [circular_dependency_of (the cycle)])
                else detect_loop frames import_graph rest s' circular_deps)
      else detect_loop frames import_graph rest (visited, rec_stack) circular_deps)"

text \<open>
  \<^verbatim>\<open>_detect_circular_dependencies\<close>, for the number of frames the interpreter leaves to
  \<^verbatim>\<open>dfs\<close> when the loop over the modules starts.
\<close>

definition detect_circular_dependencies ::
  "nat \<Rightarrow> import_graph \<Rightarrow> error + circular_dependency list" where
  "detect_circular_dependencies frames import_graph =
     detect_loop frames import_graph (map fst import_graph) ({}, {}) []"

text \<open>
  The interpreter's recursion limit when nothing changes it. The caller of \<^verbatim>\<open>dfs\<close> holds
  a frame itself, so fewer than \<open>recursion_limit\<close> calls of \<^verbatim>\<open>dfs\<close> can nest.
\<close>

definition recursion_limit :: nat where
  "recursion_limit = 1000"

text \<open>The import edges that the search follows: those to modules of the graph.\<close>

definition import_edges :: "import_graph \<Rightarrow> (string \<times> string) set" where
  "import_edges import_graph =
     {(m, i). i \<in> set (imports_of import_graph m) \<and> i \<in> modules import_graph}"

text \<open>
  A chain of \<open>n\<close> modules \<open>m\<close>, \<open>mm\<close>, \<open>mmm\<close>, and so on, each importing the next; the
  last one imports a module outside the graph.
\<close>

definition chain_module :: "nat \<Rightarrow> string" where
  "chain_module i = replicate (Suc i) CHR ''m''"

definition import_chain :: "nat \<Rightarrow> import_graph" where
  "import_chain n = map (\<lambda>i. (chain_module i, [chain_module (Suc i)])) [0..<n]"

lemma finite_modules: "finite (modules g)"
  by (simp add: modules_def)

lemma card_modules_le: "card (modules g) \<le> length g"
  unfolding modules_def by (metis card_image_le card_length le_trans List.finite_set)

text \<open>What a call returns in an acyclic graph, as a predicate on its result.\<close>

definition returns_none :: "string set \<Rightarrow> error + string list option \<times> dfs_state \<Rightarrow> bool" where
  "returns_none rec_stack r = (\<exists>visited'. r = Inr (None, (visited', rec_stack)))"

lemma dfs_imports_acyclic:
  assumes P: "\<And>m path visited.
      m \<in> modules g \<Longrightarrow> \<forall>x \<in> rec_stack. (x, m) \<in> (import_edges g)\<^sup>+
      \<Longrightarrow> returns_none rec_stack (dfs n g m path (visited, rec_stack))"
  shows "\<forall>i \<in> set is. i \<in> modules g \<longrightarrow> (\<forall>x \<in> rec_stack. (x, i) \<in> (import_edges g)\<^sup>+)
      \<Longrightarrow> returns_none (rec_stack - {m}) (dfs_imports n g m path is (visited, rec_stack))"
proof (induction "is" arbitrary: visited)
  case Nil
  then show ?case by (simp add: returns_none_def)
next
  case (Cons i rest)
  show ?case
  proof (cases "i \<in> modules g")
    case False
    with Cons show ?thesis by simp
  next
    case True
    with Cons.prems have "returns_none rec_stack (dfs n g i path (visited, rec_stack))"
      by (intro P) simp_all
    then obtain visited' where r: "dfs n g i path (visited, rec_stack) = Inr (None, (visited', rec_stack))"
      by (auto simp: returns_none_def)
    from Cons.IH [of visited'] Cons.prems
    have "returns_none (rec_stack - {m}) (dfs_imports n g m path rest (visited', rec_stack))"
      by simp
    with True r show ?thesis by simp
  qed
qed

text \<open>
  In an acyclic graph the modules on the recursion stack all reach the module of the call,
  so the stack never holds it; with as many frames as modules no call runs out of frames.
\<close>

lemma dfs_acyclic:
  assumes ac: "acyclic (import_edges g)"
  shows "m \<in> modules g \<Longrightarrow> rec_stack \<subseteq> modules g
      \<Longrightarrow> card (modules g) \<le> card rec_stack + n
      \<Longrightarrow> \<forall>x \<in> rec_stack. (x, m) \<in> (import_edges g)\<^sup>+
      \<Longrightarrow> returns_none rec_stack (dfs n g m path (visited, rec_stack))"
proof (induction n arbitrary: m path visited rec_stack)
  case 0
  have notin: "m \<notin> rec_stack"
  proof
    assume "m \<in> rec_stack"
    with "0.prems"(4) have "(m, m) \<in> (import_edges g)\<^sup>+" by blast
    with ac show False by (simp add: acyclic_def)
  qed
  from "0.prems"(2) have "card rec_stack \<le> card (modules g)"
    by (intro card_mono finite_modules)
  with "0.prems"(3) have "card rec_stack = card (modules g)" by simp
  with "0.prems"(2) have "rec_stack = modules g"
    by (intro card_subset_eq finite_modules)
  with "0.prems"(1) notin show ?case by simp
next
  case (Suc n)
  have notin: "m \<notin> rec_stack"
  proof
    assume "m \<in> rec_stack"
    with Suc.prems(4) have "(m, m) \<in> (import_edges g)\<^sup>+" by blast
    with ac show False by (simp add: acyclic_def)
  qed
  show ?case
  proof (cases "m \<in> visited")
    case True
    with notin show ?thesis by (simp add: returns_none_def)
  next
    case False
    let ?v = "insert m visited" and ?r = "insert m rec_stack"
    have fin: "finite rec_stack"
      using Suc.prems(2) finite_modules by (rule finite_subset)
    have sub: "?r \<subseteq> modules g"
      using Suc.prems(1,2) by simp
    have c: "card (modules g) \<le> card ?r + n"
      using Suc.prems(3) notin fin by simp
    have e: "\<forall>i \<in> set (imports_of g m). i \<in> modules g \<longrightarrow> (\<forall>x \<in> ?r. (x, i) \<in> (import_edges g)\<^sup>+)"
    proof (intro ballI impI)
      fix i x assume i: "i \<in> set (imports_of g m)" "i \<in> modules g" and x: "x \<in> ?r"
      from i have mi: "(m, i) \<in> import_edges g" by (simp add: import_edges_def)
      from x show "(x, i) \<in> (import_edges g)\<^sup>+"
      proof
        assume "x = m" with mi show ?thesis by blast
      next
        assume "x \<in> rec_stack"
        with Suc.prems(4) have "(x, m) \<in> (import_edges g)\<^sup>+" by blast
        with mi show ?thesis by (meson trancl.trancl_into_trancl)
      qed
    qed
    have "returns_none (?r - {m}) (dfs_imports n g m (path @ [m]) (imports_of g m) (?v, ?r))"
    proof (rule dfs_imports_acyclic [OF _ e])
      fix m' path' visited'
      assume "m' \<in> modules g" and "\<forall>x \<in> ?r. (x, m') \<in> (import_edges g)\<^sup>+"
      then show "returns_none ?r (dfs n g m' path' (visited', ?r))"
        using sub c by (intro Suc.IH)
    qed
    moreover have "?r - {m} = rec_stack" using notin by auto
    ultimately have "returns_none rec_stack
        (dfs_imports n g m (path @ [m]) (imports_of g m) (?v, ?r))"
      by simp
    with notin False show ?thesis by simp
  qed
qed

lemma detect_loop_acyclic:
  assumes ac: "acyclic (import_edges g)" and n: "card (modules g) \<le> n"
  shows "set ms \<subseteq> modules g \<Longrightarrow> detect_loop n g ms (visited, {}) acc = Inr acc"
proof (induction ms arbitrary: visited)
  case Nil
  then show ?case by simp
next
  case (Cons m ms)
  show ?case
  proof (cases "m \<in> visited")
    case True
    with Cons show ?thesis by simp
  next
    case False
    from Cons.prems n have "returns_none {} (dfs n g m [] (visited, {}))"
      by (intro dfs_acyclic [OF ac]) simp_all
    then obtain visited' where r: "dfs n g m [] (visited, {}) = Inr (None, (visited', {}))"
      by (auto simp: returns_none_def)
    from Cons.IH [of visited'] Cons.prems
    have "detect_loop n g ms (visited', {}) acc = Inr acc" by simp
    with False r show ?thesis by simp
  qed
qed

lemma detect_acyclic:
  assumes "acyclic (import_edges g)" and "length g \<le> frames"
  shows "detect_circular_dependencies frames g = Inr []"
proof -
  have "card (modules g) \<le> frames"
    using card_modules_le [of g] assms(2) by simp
  moreover have "set (map fst g) \<subseteq> modules g"
    by (simp add: modules_def)
  ultimately show ?thesis
    unfolding detect_circular_dependencies_def
    by (intro detect_loop_acyclic assms(1))
qed

lemma three_orders:
  assumes "mset g = {#x, y, z#}"
  shows "g \<in> {[x, y, z], [x, z, y], [y, x, z], [y, z, x], [z, x, y], [z, y, x]}"
proof -
  from assms have "size (mset g) = 3" by simp
  then have "length g = 3" by simp
  then obtain p q r where g: "g = [p, q, r]"
    by (auto simp: eval_nat_numeral length_Suc_conv)
  with assms show ?thesis
    by (auto simp: add_eq_conv_ex)
qed

text \<open>The chain: its modules, its imports, and the search that runs out of frames.\<close>

lemma chain_module_inj: "chain_module i = chain_module j \<longleftrightarrow> i = j"
proof
  assume "chain_module i = chain_module j"
  then have "length (chain_module i) = length (chain_module j)" by simp
  then show "i = j" by (simp add: chain_module_def)
qed simp

lemma modules_import_chain: "modules (import_chain n) = chain_module ` {..<n}"
  by (simp add: modules_def import_chain_def image_image atLeast0LessThan [symmetric])

lemma chain_module_in_chain: "chain_module i \<in> modules (import_chain n) \<longleftrightarrow> i < n"
  by (auto simp: modules_import_chain chain_module_inj)

lemma map_of_import_chain:
  "i < n \<Longrightarrow> map_of (import_chain n) (chain_module i) = Some [chain_module (Suc i)]"
proof (induction n)
  case 0
  then show ?case by simp
next
  case (Suc n)
  show ?case
  proof (cases "i < n")
    case True
    with Suc.IH show ?thesis
      by (simp add: import_chain_def)
  next
    case False
    with Suc.prems have i: "i = n" by simp
    have "chain_module n \<notin> fst ` set (import_chain n)"
      using chain_module_in_chain [of n n] by (simp add: modules_def)
    then have "map_of (import_chain n) (chain_module n) = None"
      by (simp add: map_of_eq_None_iff)
    with i show ?thesis
      by (simp add: import_chain_def map_add_def)
  qed
qed

lemma imports_of_import_chain:
  "i < n \<Longrightarrow> imports_of (import_chain n) (chain_module i) = [chain_module (Suc i)]"
  by (simp add: imports_of_def map_of_import_chain)

lemma dfs_import_chain:
  "i + k < n \<Longrightarrow>
     dfs k (import_chain n) (chain_module i) path (chain_module ` {..<i}, chain_module ` {..<i})
       = Inl RecursionError"
proof (induction k arbitrary: i path)
  case 0
  show ?case by simp
next
  case (Suc k)
  have notin: "chain_module i \<notin> chain_module ` {..<i}"
    by (auto simp: chain_module_inj)
  have ins: "insert (chain_module i) (chain_module ` {..<i}) = chain_module ` {..<Suc i}"
    by (auto simp: lessThan_Suc)
  from Suc.prems have "Suc i + k < n" by simp
  from Suc.IH [OF this]
  have "dfs k (import_chain n) (chain_module (Suc i)) (path @ [chain_module i])
          (chain_module ` {..<Suc i}, chain_module ` {..<Suc i}) = Inl RecursionError" .
  moreover from Suc.prems have "chain_module (Suc i) \<in> modules (import_chain n)"
    by (simp add: chain_module_in_chain)
  moreover from Suc.prems have "imports_of (import_chain n) (chain_module i) = [chain_module (Suc i)]"
    by (simp add: imports_of_import_chain)
  ultimately show ?case
    using notin by (simp add: ins)
qed

lemma detect_import_chain:
  assumes "frames < n"
  shows "detect_circular_dependencies frames (import_chain n) = Inl RecursionError"
proof -
  from assms obtain n' where n: "n = Suc n'" by (cases n) auto
  have "map fst (import_chain n) = chain_module 0 # map chain_module [1..<n]"
    unfolding n import_chain_def by (simp add: upt_rec [of 0] comp_def del: upt_Suc)
  moreover have "dfs frames (import_chain n) (chain_module 0) [] ({}, {}) = Inl RecursionError"
    using dfs_import_chain [of 0 frames n "[]"] assms by simp
  ultimately show ?thesis
    by (simp add: detect_circular_dependencies_def)
qed

lemma acyclic_import_chain: "acyclic (import_edges (import_chain n))"
proof (rule acyclicI_order [where f = "\<lambda>x. n + 1 - length x"])
  fix a b assume "(a, b) \<in> import_edges (import_chain n)"
  then have b: "b \<in> set (imports_of (import_chain n) a)" and "b \<in> modules (import_chain n)"
    by (simp_all add: import_edges_def)
  then obtain j where j: "b = chain_module j" "j < n"
    by (auto simp: modules_import_chain)
  have "a \<in> modules (import_chain n)"
  proof (cases "map_of (import_chain n) a")
    case None
    with b show ?thesis by (simp add: imports_of_def)
  next
    case (Some imps)
    then have "(a, imps) \<in> set (import_chain n)" by (rule map_of_SomeD)
    then show ?thesis unfolding modules_def by (rule rev_image_eqI) simp
  qed
  then obtain i where i: "a = chain_module i" "i < n"
    by (auto simp: modules_import_chain)
  with b j have "j = Suc i"
    by (simp add: imports_of_import_chain chain_module_inj)
  with i j show "n + 1 - length b < n + 1 - length a"
    by (simp add: chain_module_def)
qed

lemma detect_three_cycle_orders:
  assumes d: "a \<noteq> b" "a \<noteq> c" "b \<noteq> c"
    and g: "g \<in> {[(a, [b]), (b, [c]), (c, [a])], [(a, [b]), (c, [a]), (b, [c])],
      [(b, [c]), (a, [b]), (c, [a])], [(b, [c]), (c, [a]), (a, [b])],
      [(c, [a]), (a, [b]), (b, [c])], [(c, [a]), (b, [c]), (a, [b])]}"
  shows "\<exists>cycle. detect_circular_dependencies (Suc (Suc (Suc (Suc k)))) g
          = Inr [circular_dependency_of cycle] \<and> set cycle = {a, b, c}"
proof -
  from g consider "g = [(a, [b]), (b, [c]), (c, [a])]" | "g = [(a, [b]), (c, [a]), (b, [c])]"
    | "g = [(b, [c]), (a, [b]), (c, [a])]" | "g = [(b, [c]), (c, [a]), (a, [b])]"
    | "g = [(c, [a]), (a, [b]), (b, [c])]" | "g = [(c, [a]), (b, [c]), (a, [b])]"
    by blast
  then show ?thesis
  proof cases
    case 1
    with d show ?thesis
      by (auto simp add: detect_circular_dependencies_def modules_def imports_of_def)
  next
    case 2
    with d show ?thesis
      by (auto simp add: detect_circular_dependencies_def modules_def imports_of_def)
  next
    case 3
    with d show ?thesis
      by (auto simp add: detect_circular_dependencies_def modules_def imports_of_def)
  next
    case 4
    with d show ?thesis
      by (auto simp add: detect_circular_dependencies_def modules_def imports_of_def)
  next
    case 5
    with d show ?thesis
      by (auto simp add: detect_circular_dependencies_def modules_def imports_of_def)
  next
    case 6
    with d show ?thesis
      by (auto simp add: detect_circular_dependencies_def modules_def imports_of_def)
  qed
qed

text \<open>
  Claim C3, as amended. With at least 4 frames left to the search, the graph of the three
  modules \<open>a\<close>, \<open>b\<close>, \<open>c\<close> with \<open>a\<close> importing \<open>b\<close>, \<open>b\<close> importing \<open>c\<close> and \<open>c\<close>
  importing \<open>a\<close>, its entries in any order, yields one cycle whose modules are \<open>a\<close>, \<open>b\<close>,
  \<open>c\<close>. A graph whose internal import edges have no cycle yields the empty list when it has
  no more modules than the search has frames. The chain of \<open>n\<close> modules, which has no cycle,
  raises \<^verbatim>\<open>RecursionError\<close> when the search has fewer than \<open>n\<close> frames.
\<close>

theorem detect_circular_dependencies_within_frames:
  "(4 \<le> frames \<and> distinct [a, b, c] \<and> mset g = {#(a, [b]), (b, [c]), (c, [a])#} \<longrightarrow>
      (\<exists>cycle. detect_circular_dependencies frames g = Inr [circular_dependency_of cycle]
         \<and> set cycle = {a, b, c}))
   \<and> (acyclic (import_edges g') \<and> length g' \<le> frames' \<longrightarrow>
        detect_circular_dependencies frames' g' = Inr [])
   \<and> (frames'' < n \<longrightarrow>
        detect_circular_dependencies frames'' (import_chain n) = Inl RecursionError)"
proof (intro conjI impI)
  assume h: "4 \<le> frames \<and> distinct [a, b, c] \<and> mset g = {#(a, [b]), (b, [c]), (c, [a])#}"
  then have d: "a \<noteq> b" "a \<noteq> c" "b \<noteq> c" by auto
  from h have "frames = Suc (Suc (Suc (Suc (frames - 4))))" by arith
  then obtain k where k: "frames = Suc (Suc (Suc (Suc k)))" ..
  from h have "g \<in> {[(a, [b]), (b, [c]), (c, [a])], [(a, [b]), (c, [a]), (b, [c])],
      [(b, [c]), (a, [b]), (c, [a])], [(b, [c]), (c, [a]), (a, [b])],
      [(c, [a]), (a, [b]), (b, [c])], [(c, [a]), (b, [c]), (a, [b])]}"
    by (intro three_orders) simp
  with d show "\<exists>cycle. detect_circular_dependencies frames g = Inr [circular_dependency_of cycle]
         \<and> set cycle = {a, b, c}"
    unfolding k by (rule detect_three_cycle_orders)
next
  assume "acyclic (import_edges g') \<and> length g' \<le> frames'"
  then show "detect_circular_dependencies frames' g' = Inr []"
    by (simp add: detect_acyclic)
next
  assume "frames'' < n"
  then show "detect_circular_dependencies frames'' (import_chain n) = Inl RecursionError"
    by (rule detect_import_chain)
qed

lemma acyclic_witness_graph: "acyclic (import_edges [(''A'', [''B'', ''os'']), (''B'', [])])"
proof -
  have "import_edges [(''A'', [''B'', ''os'']), (''B'', [])] \<subseteq> {(''A'', ''B'')}"
    by (auto simp: import_edges_def imports_of_def modules_def split: if_splits)
  moreover have "acyclic ({} :: (string \<times> string) set)"
    by (simp add: acyclic_def)
  then have "acyclic {(''A'', ''B'')}"
    by (simp add: acyclic_insert)
  ultimately show ?thesis by (rule acyclic_subset [rotated])
qed

theorem detect_circular_dependencies_within_frames_witness:
  "4 \<le> recursion_limit - 1
   \<and> distinct [''A'', ''B'', ''C'']
   \<and> mset [(''B'', [''C'']), (''C'', [''A'']), (''A'', [''B''])]
       = {#(''A'', [''B'']), (''B'', [''C'']), (''C'', [''A''])#}
   \<and> (\<exists>cycle. detect_circular_dependencies (recursion_limit - 1)
                  [(''B'', [''C'']), (''C'', [''A'']), (''A'', [''B''])]
         = Inr [circular_dependency_of cycle] \<and> set cycle = {''A'', ''B'', ''C''})
   \<and> acyclic (import_edges [(''A'', [''B'', ''os'']), (''B'', [])])
   \<and> length [(''A'', [''B'', ''os'']), (''B'', [])] \<le> recursion_limit - 1
   \<and> detect_circular_dependencies (recursion_limit - 1) [(''A'', [''B'', ''os'']), (''B'', [])]
       = Inr []
   \<and> (2::nat) < 3
   \<and> detect_circular_dependencies 2 (import_chain 3) = Inl RecursionError"
proof -
  have h1: "4 \<le> recursion_limit - 1 \<and> distinct [''A'', ''B'', ''C'']
      \<and> mset [(''B'', [''C'']), (''C'', [''A'']), (''A'', [''B''])]
          = {#(''A'', [''B'']), (''B'', [''C'']), (''C'', [''A''])#}"
    by (simp add: recursion_limit_def)
  have h2: "acyclic (import_edges [(''A'', [''B'', ''os'']), (''B'', [])])
      \<and> length [(''A'', [''B'', ''os'']), (''B'', [])] \<le> recursion_limit - 1"
    using acyclic_witness_graph by (simp add: recursion_limit_def)
  have h3: "(2::nat) < 3" by simp
  note t = detect_circular_dependencies_within_frames
    [of "recursion_limit - 1" "''A''" "''B''" "''C''"
        "[(''B'', [''C'']), (''C'', [''A'']), (''A'', [''B''])]"
        "[(''A'', [''B'', ''os'']), (''B'', [])]" "recursion_limit - 1" 2 3]
  from t h1 h2 h3 show ?thesis by blast
qed

text \<open>
  Claim C3 as stated fails in its second part: the chain of 1000 modules has no cycle, and
  under the interpreter's limit of 1000 frames, of which the caller of \<^verbatim>\<open>dfs\<close> holds at
  least one, the search raises \<^verbatim>\<open>RecursionError\<close> instead of returning the empty list.
\<close>

theorem deep_import_chain_counterexample:
  "acyclic (import_edges (import_chain 1000))
   \<and> detect_circular_dependencies (recursion_limit - 1) (import_chain 1000)
       = Inl RecursionError"
  by (simp add: acyclic_import_chain detect_import_chain recursion_limit_def)

lemma detect_stale_rec_stack:
  "detect_circular_dependencies (Suc (Suc (Suc k)))
     [(''A'', [''B'']), (''B'', [''A'']), (''X'', [''A''])] = Inl ValueError"
  by (simp add: detect_circular_dependencies_def modules_def imports_of_def)

lemma frames_left: "recursion_limit - 1 = Suc (Suc (Suc (Suc 995)))"
  by (simp add: recursion_limit_def)

text \<open>
  Claim C10 fails on the code. After the cycle of \<open>A\<close> and \<open>B\<close> is returned, both stay in
  \<^verbatim>\<open>rec_stack\<close>; the search from \<open>X\<close> reaches \<open>A\<close> with the path \<open>[X]\<close>, and
  \<^verbatim>\<open>path.index\<close> raises \<^verbatim>\<open>ValueError\<close>.
\<close>

theorem detect_circular_dependencies_raises:
  "detect_circular_dependencies (recursion_limit - 1)
     [(''A'', [''B'']), (''B'', [''A'']), (''X'', [''A''])] = Inl ValueError"
  unfolding frames_left by (rule detect_stale_rec_stack)

section \<open>Duplicate blocks by hashing\<close>

record block_entry =
  be_file :: string
  be_line :: int

record duplicate_block =
  db_file :: string
  db_line :: int
  db_similar_to :: string
  db_similar_line :: int
  db_message :: string
  db_source :: string

text \<open>
  \<^verbatim>\<open>simple_hash\<close>: Python integers are unbounded, the mask is applied once at the end.
\<close>

definition simple_hash :: "string \<Rightarrow> int" where
  "simple_hash text = foldl (\<lambda>h c. (push_bit 5 h + h) + of_char c) 5381 text mod 2 ^ 32"

text \<open>
  \<^verbatim>\<open>str.split()\<close> without arguments splits at runs of whitespace and drops empty strings.
  \<^verbatim>\<open>str.isspace\<close> for the code points below 256.
\<close>

definition isspace :: "char \<Rightarrow> bool" where
  "isspace c =
     (let k = (of_char c :: nat)
      in (9 \<le> k \<and> k \<le> 13) \<or> (28 \<le> k \<and> k \<le> 32) \<or> k = 133 \<or> k = 160)"

fun split_from :: "string \<Rightarrow> string \<Rightarrow> string list" where
  "split_from [] word = (if word = [] then [] else [word])"
| "split_from (c # cs) word =
     (if isspace c then (if word = [] then split_from cs [] else word # split_from cs [])
      else split_from cs (word @ [c]))"

definition split :: "string \<Rightarrow> string list" where
  "split text = split_from text []"

definition block_size :: nat where
  "block_size = 5"

text \<open>The text of the block at index \<open>i\<close> with its whitespace normalized.\<close>

definition normalized :: "string list \<Rightarrow> nat \<Rightarrow> string" where
  "normalized lines i = join '' '' (split (concat (take block_size (drop i lines))))"

type_synonym hash_state = "duplicate_block list \<times> (int \<rightharpoonup> block_entry list)"

text \<open>
  One round of the loop over the block indices of a file. The inner loop stops at the first
  earlier block of the bucket in another file or more than \<^verbatim>\<open>block_size\<close> lines away; the
  block is added to its bucket in every case.
\<close>

definition far_enough :: "string \<Rightarrow> nat \<Rightarrow> block_entry \<Rightarrow> bool" where
  "far_enough rel i existing =
     (be_file existing \<noteq> rel \<or> \<bar>be_line existing - (int i + 1)\<bar> > int block_size)"

definition check_block :: "string \<Rightarrow> string list \<Rightarrow> nat \<Rightarrow> hash_state \<Rightarrow> hash_state" where
  "check_block rel lines i st =
     (let (duplicates, block_hashes) = st;
          text = normalized lines i
      in if length text < 50 then st
         else
           let block_hash = simple_hash text;
               entry = \<lparr>be_file = rel, be_line = int i + 1\<rparr>
           in (case block_hashes block_hash of
                 Some bucket \<Rightarrow>
                   ((case find (far_enough rel i) bucket of
                       Some existing \<Rightarrow>
                         duplicates @
                           [\<lparr>db_file = rel, db_line = int i + 1,
                             db_similar_to = be_file existing,
                             db_similar_line = be_line existing,
                             db_message = ''Similar code block ('' @ str_nat block_size
                               @ '' lines)'',
                             db_source = ''hash_detection''\<rparr>]
                     | None \<Rightarrow> duplicates),
                    block_hashes(block_hash \<mapsto> bucket @ [entry]))
               | None \<Rightarrow> (duplicates, block_hashes(block_hash \<mapsto> [entry]))))"

fun blocks_loop :: "string \<Rightarrow> string list \<Rightarrow> nat list \<Rightarrow> hash_state \<Rightarrow> hash_state" where
  "blocks_loop rel lines [] st = st"
| "blocks_loop rel lines (i # rest) st = blocks_loop rel lines rest (check_block rel lines i st)"

text \<open>\<^verbatim>\<open>range(len(lines) - block_size + 1)\<close>, empty when the file has fewer lines than a block.\<close>

definition block_indices :: "string list \<Rightarrow> nat list" where
  "block_indices lines = [0 ..< nat (int (length lines) - int block_size + 1)]"

fun hashing_loop :: "source_file list \<Rightarrow> hash_state \<Rightarrow> hash_state" where
  "hashing_loop [] st = st"
| "hashing_loop (f # fs) st =
     (case file_lines f of
        None \<Rightarrow> hashing_loop fs st
      | Some lines \<Rightarrow>
          hashing_loop fs (blocks_loop (relative_path f) lines (block_indices lines) st))"

definition detect_duplicates_with_hashing :: "source_file list \<Rightarrow> duplicate_block list" where
  "detect_duplicates_with_hashing python_files =
     take 50 (fst (hashing_loop python_files ([], Map.empty)))"









































section \<open>Dead code\<close>

record definition_info =
  di_file :: string
  di_name :: string
  di_line :: int
  di_type :: string

record dead_code_item =
  dc_file :: string
  dc_line :: int
  dc_type :: string
  dc_name :: string
  dc_message :: string
  dc_severity :: string

text \<open>\<^verbatim>\<open>name.startswith('_')\<close>.\<close>

fun is_private :: "string \<Rightarrow> bool" where
  "is_private [] = False"
| "is_private (c # cs) = (c = CHR ''_'')"

text \<open>
  The first loop over \<^verbatim>\<open>ast.walk(tree)\<close>: one \<^verbatim>\<open>if\<close>/\<^verbatim>\<open>elif\<close> chain per node.
  \<^verbatim>\<open>all_definitions\<close> is a dictionary keyed by path, colon and name; \<^verbatim>\<open>all_usages\<close> is a
  set. Both are created once, before the loop over the files.
\<close>

type_synonym definitions = "(string \<times> definition_info) list"

fun collect_node :: "string \<Rightarrow> node \<Rightarrow> definitions \<times> string set \<Rightarrow> definitions \<times> string set" where
  "collect_node rel (FunctionDef name lineno cs) (all_definitions, all_usages) =
     (if \<not> is_private name
      then (AList.update (rel @ '':'' @ name)
              \<lparr>di_file = rel, di_name = name, di_line = lineno, di_type = ''function''\<rparr>
              all_definitions, all_usages)
      else (all_definitions, all_usages))"
| "collect_node rel (ClassDef name lineno end_lineno pre body post) (all_definitions, all_usages) =
     (if \<not> is_private name
      then (AList.update (rel @ '':'' @ name)
              \<lparr>di_file = rel, di_name = name, di_line = lineno, di_type = ''class''\<rparr>
              all_definitions, all_usages)
      else (all_definitions, all_usages))"
| "collect_node rel (Name ident) (all_definitions, all_usages) =
     (all_definitions, insert ident all_usages)"
| "collect_node rel (Attribute v attr) (all_definitions, all_usages) =
     (all_definitions, insert attr all_usages)"
| "collect_node rel (Call (Name ident) args) (all_definitions, all_usages) =
     (all_definitions, insert ident all_usages)"
| "collect_node rel (Call (Attribute v attr) args) (all_definitions, all_usages) =
     (all_definitions, insert attr all_usages)"
| "collect_node rel n (all_definitions, all_usages) = (all_definitions, all_usages)"

fun collect :: "string \<Rightarrow> node list \<Rightarrow> definitions \<times> string set \<Rightarrow> definitions \<times> string set" where
  "collect rel [] st = st"
| "collect rel (n # ns) st = collect rel ns (collect_node rel n st)"

definition unused_import :: "string \<Rightarrow> int \<Rightarrow> string \<Rightarrow> string \<Rightarrow> dead_code_item" where
  "unused_import rel lineno name alias_nm =
     \<lparr>dc_file = rel, dc_line = lineno, dc_type = ''unused_import'', dc_name = name,
      dc_message = ''Unused import: '' @ alias_nm, dc_severity = ''low''\<rparr>"

text \<open>\<^verbatim>\<open>alias.asname or alias.name.split('.')[0]\<close> and \<^verbatim>\<open>alias.asname or alias.name\<close>.\<close>

definition import_bound_name :: "import_alias \<Rightarrow> string" where
  "import_bound_name a =
     (case asname a of
        Some n \<Rightarrow> if n \<noteq> [] then n else takeWhile (\<lambda>c. c \<noteq> CHR ''.'') (alias_name a)
      | None \<Rightarrow> takeWhile (\<lambda>c. c \<noteq> CHR ''.'') (alias_name a))"

definition from_bound_name :: "import_alias \<Rightarrow> string" where
  "from_bound_name a =
     (case asname a of
        Some n \<Rightarrow> if n \<noteq> [] then n else alias_name a
      | None \<Rightarrow> alias_name a)"

fun import_names :: "string \<Rightarrow> int \<Rightarrow> import_alias list \<Rightarrow> string set
      \<Rightarrow> dead_code_item list \<Rightarrow> dead_code_item list" where
  "import_names rel lineno [] all_usages dead_code = dead_code"
| "import_names rel lineno (a # as) all_usages dead_code =
     (let name = import_bound_name a
      in if name \<notin> all_usages \<and> \<not> is_private name
         then import_names rel lineno as all_usages
                (dead_code @ [unused_import rel lineno (alias_name a) (alias_name a)])
         else import_names rel lineno as all_usages dead_code)"

fun from_names :: "string \<Rightarrow> string option \<Rightarrow> int \<Rightarrow> import_alias list \<Rightarrow> string set
      \<Rightarrow> dead_code_item list \<Rightarrow> dead_code_item list" where
  "from_names rel modname lineno [] all_usages dead_code = dead_code"
| "from_names rel modname lineno (a # as) all_usages dead_code =
     (let name = from_bound_name a
      in if name \<notin> all_usages \<and> name \<noteq> ''*'' \<and> \<not> is_private name
         then from_names rel modname lineno as all_usages
                (dead_code @
                  [unused_import rel lineno
                     (case modname of
                        Some m \<Rightarrow> if m \<noteq> [] then m @ ''.'' @ alias_name a else alias_name a
                      | None \<Rightarrow> alias_name a)
                     (alias_name a)])
         else from_names rel modname lineno as all_usages dead_code)"

text \<open>The second loop over \<^verbatim>\<open>ast.walk(tree)\<close>, with the usage set as the first loop left it.\<close>

fun unused_imports :: "string \<Rightarrow> node list \<Rightarrow> string set
      \<Rightarrow> dead_code_item list \<Rightarrow> dead_code_item list" where
  "unused_imports rel [] all_usages dead_code = dead_code"
| "unused_imports rel (Import lineno names # ns) all_usages dead_code =
     unused_imports rel ns all_usages (import_names rel lineno names all_usages dead_code)"
| "unused_imports rel (ImportFrom modname lineno names # ns) all_usages dead_code =
     unused_imports rel ns all_usages (from_names rel modname lineno names all_usages dead_code)"
| "unused_imports rel (n # ns) all_usages dead_code = unused_imports rel ns all_usages dead_code"

type_synonym dead_state = "dead_code_item list \<times> definitions \<times> string set"

fun dead_code_files :: "source_file list \<Rightarrow> dead_state \<Rightarrow> dead_state" where
  "dead_code_files [] st = st"
| "dead_code_files (f # fs) (dead_code, all_definitions, all_usages) =
     (case tree f of
        None \<Rightarrow> dead_code_files fs (dead_code, all_definitions, all_usages)
      | Some t \<Rightarrow>
          (let (defs, usages) = collect (relative_path f) (walk t) (all_definitions, all_usages)
           in dead_code_files fs
                (unused_imports (relative_path f) (walk t) usages dead_code, defs, usages)))"

definition entry_points :: "string list" where
  "entry_points = [''main'', ''setup'', ''teardown'', ''run'']"

definition unused_definition :: "definition_info \<Rightarrow> dead_code_item" where
  "unused_definition defn =
     \<lparr>dc_file = di_file defn, dc_line = di_line defn,
      dc_type = ''potentially_unused_'' @ di_type defn, dc_name = di_name defn,
      dc_message = ''Potentially unused '' @ di_type defn @ '': '' @ di_name defn,
      dc_severity = ''low''\<rparr>"

fun unused_definitions :: "definitions \<Rightarrow> string set \<Rightarrow> dead_code_item list
      \<Rightarrow> dead_code_item list" where
  "unused_definitions [] all_usages dead_code = dead_code"
| "unused_definitions ((key, defn) # rest) all_usages dead_code =
     (if di_name defn \<notin> all_usages
      then (if di_name defn \<notin> set entry_points
            then unused_definitions rest all_usages (dead_code @ [unused_definition defn])
            else unused_definitions rest all_usages dead_code)
      else unused_definitions rest all_usages dead_code)"

definition detect_dead_code :: "source_file list \<Rightarrow> dead_code_item list" where
  "detect_dead_code python_files =
     (let (dead_code, all_definitions, all_usages) = dead_code_files python_files ([], [], {})
      in take 100 (unused_definitions all_definitions all_usages dead_code))"

text \<open>The usages one node contributes, and the usages of a file and of a project.\<close>

fun node_usage :: "node \<Rightarrow> string set" where
  "node_usage (Name ident) = {ident}"
| "node_usage (Attribute v attr) = {attr}"
| "node_usage (Call (Name ident) args) = {ident}"
| "node_usage (Call (Attribute v attr) args) = {attr}"
| "node_usage n = {}"

definition file_usages :: "node \<Rightarrow> string set" where
  "file_usages t = (\<Union>n \<in> set (walk t). node_usage n)"

definition project_usages :: "source_file list \<Rightarrow> string set" where
  "project_usages files =
     (\<Union>f \<in> set files. case tree f of None \<Rightarrow> {} | Some t \<Rightarrow> file_usages t)"

text \<open>The dictionary of definitions and the import items after the loop over the files.\<close>

definition collected_definitions :: "source_file list \<Rightarrow> definition_info list" where
  "collected_definitions files = map snd (fst (snd (dead_code_files files ([], [], {}))))"

definition flagged_imports :: "source_file list \<Rightarrow> dead_code_item list" where
  "flagged_imports files = fst (dead_code_files files ([], [], {}))"

lemma collect_node_usages: "snd (collect_node rel n (d, u)) = u \<union> node_usage n"
  by (induction rel n "(d, u)" rule: collect_node.induct) auto

lemma collect_usages: "snd (collect rel ns (d, u)) = u \<union> (\<Union>n \<in> set ns. node_usage n)"
proof (induction ns arbitrary: d u)
  case Nil
  show ?case by simp
next
  case (Cons n ns)
  obtain d' u' where c: "collect_node rel n (d, u) = (d', u')" by (metis surj_pair)
  then have "u' = u \<union> node_usage n"
    using collect_node_usages [of rel n d u] by simp
  with c Cons [of d' u'] show ?case by auto
qed


text \<open>The import items of one node for a given usage set.\<close>

fun import_items :: "string \<Rightarrow> string set \<Rightarrow> node \<Rightarrow> dead_code_item list" where
  "import_items rel us (Import lineno names) =
     map (\<lambda>a. unused_import rel lineno (alias_name a) (alias_name a))
       (filter (\<lambda>a. import_bound_name a \<notin> us \<and> \<not> is_private (import_bound_name a)) names)"
| "import_items rel us (ImportFrom modname lineno names) =
     map (\<lambda>a. unused_import rel lineno
                (case modname of
                   Some m \<Rightarrow> if m \<noteq> [] then m @ ''.'' @ alias_name a else alias_name a
                 | None \<Rightarrow> alias_name a)
                (alias_name a))
       (filter (\<lambda>a. from_bound_name a \<notin> us \<and> from_bound_name a \<noteq> ''*''
                     \<and> \<not> is_private (from_bound_name a)) names)"
| "import_items rel us n = []"

lemma import_names_items:
  "import_names rel l as us dc = dc @ import_items rel us (Import l as)"
  by (induction as arbitrary: dc) (simp_all add: Let_def)

lemma from_names_items:
  "from_names rel m l as us dc = dc @ import_items rel us (ImportFrom m l as)"
  by (induction as arbitrary: dc) (simp_all add: Let_def)

lemma unused_imports_items:
  "unused_imports rel ns us dc = dc @ concat (map (import_items rel us) ns)"
  by (induction rel ns us dc rule: unused_imports.induct)
     (simp_all add: import_names_items from_names_items del: import_items.simps(1,2))

lemma import_items_antimono:
  "us \<subseteq> us' \<Longrightarrow> set (import_items rel us' n) \<subseteq> set (import_items rel us n)"
  by (cases n) auto

lemma import_items_type: "item \<in> set (import_items rel us n) \<Longrightarrow> dc_type item = ''unused_import''"
  by (cases n) (auto simp: unused_import_def)

lemma unused_definitions_filter:
  "unused_definitions defs us dc =
     dc @ map unused_definition
            (filter (\<lambda>d. di_name d \<notin> us \<and> di_name d \<notin> set entry_points) (map snd defs))"
  by (induction defs us dc rule: unused_definitions.induct) simp_all

lemma dead_code_files_usages:
  "snd (snd (dead_code_files fs (dc, d, u))) = u \<union> project_usages fs"
proof (induction fs arbitrary: dc d u)
  case Nil
  show ?case by (simp add: project_usages_def)
next
  case (Cons f fs)
  show ?case
  proof (cases "tree f")
    case None
    with Cons [of dc d u] show ?thesis by (simp add: project_usages_def)
  next
    case (Some t)
    obtain d' u' where c: "collect (relative_path f) (walk t) (d, u) = (d', u')"
      by (metis surj_pair)
    then have "u' = u \<union> file_usages t"
      using collect_usages [of "relative_path f" "walk t" d u] by (simp add: file_usages_def)
    with Some c Cons [of "unused_imports (relative_path f) (walk t) u' dc" d' u']
    show ?thesis by (auto simp: project_usages_def)
  qed
qed

text \<open>An import item of the result is one that the check of its own file alone would flag.\<close>

definition own_file_import :: "source_file list \<Rightarrow> dead_code_item \<Rightarrow> bool" where
  "own_file_import files item =
     (\<exists>f \<in> set files. case tree f of
        None \<Rightarrow> False
      | Some t \<Rightarrow> item \<in> set (unused_imports (relative_path f) (walk t) (file_usages t) []))"

lemma dead_code_files_imports:
  "item \<in> set (fst (dead_code_files fs (dc, d, u))) \<Longrightarrow>
     item \<in> set dc \<or> own_file_import fs item"
proof (induction fs arbitrary: dc d u)
  case Nil
  then show ?case by simp
next
  case (Cons f fs)
  show ?case
  proof (cases "tree f")
    case None
    with Cons.prems have "item \<in> set (fst (dead_code_files fs (dc, d, u)))" by simp
    from Cons.IH [OF this] show ?thesis by (auto simp: own_file_import_def)
  next
    case (Some t)
    obtain d' u' where c: "collect (relative_path f) (walk t) (d, u) = (d', u')"
      by (metis surj_pair)
    then have u': "file_usages t \<subseteq> u'"
      using collect_usages [of "relative_path f" "walk t" d u] by (auto simp: file_usages_def)
    let ?dc = "unused_imports (relative_path f) (walk t) u' dc"
    from Cons.prems Some c have "item \<in> set (fst (dead_code_files fs (?dc, d', u')))"
      by simp
    from Cons.IH [OF this] have "item \<in> set ?dc \<or> own_file_import fs item" .
    then show ?thesis
    proof
      assume "item \<in> set ?dc"
      then have "item \<in> set dc
          \<or> item \<in> set (concat (map (import_items (relative_path f) u') (walk t)))"
        by (simp add: unused_imports_items)
      moreover have "set (concat (map (import_items (relative_path f) u') (walk t)))
          \<subseteq> set (unused_imports (relative_path f) (walk t) (file_usages t) [])"
        using import_items_antimono [OF u'] by (fastforce simp: unused_imports_items)
      ultimately show ?thesis
        using Some by (auto simp: own_file_import_def)
    next
      assume "own_file_import fs item"
      then show ?thesis by (auto simp: own_file_import_def)
    qed
  qed
qed

lemma dead_code_files_types:
  "item \<in> set (fst (dead_code_files fs (dc, d, u))) \<Longrightarrow>
     item \<in> set dc \<or> dc_type item = ''unused_import''"
proof (induction fs arbitrary: dc d u)
  case Nil
  then show ?case by simp
next
  case (Cons f fs)
  show ?case
  proof (cases "tree f")
    case None
    with Cons show ?thesis by simp
  next
    case (Some t)
    obtain d' u' where c: "collect (relative_path f) (walk t) (d, u) = (d', u')"
      by (metis surj_pair)
    let ?dc = "unused_imports (relative_path f) (walk t) u' dc"
    from Cons.prems Some c have "item \<in> set (fst (dead_code_files fs (?dc, d', u')))"
      by simp
    from Cons.IH [OF this] show ?thesis
      by (auto simp: unused_imports_items dest: import_items_type)
  qed
qed

lemma detect_dead_code_eq:
  "detect_dead_code files =
     take 100 (flagged_imports files @
       map unused_definition
         (filter (\<lambda>d. di_name d \<notin> project_usages files \<and> di_name d \<notin> set entry_points)
            (collected_definitions files)))"
proof -
  obtain dc d u where s: "dead_code_files files ([], [], {}) = (dc, d, u)"
    by (metis surj_pair)
  then have "u = project_usages files"
    using dead_code_files_usages [of files "[]" "[]" "{}"] by simp
  with s show ?thesis
    by (simp add: detect_dead_code_def flagged_imports_def collected_definitions_def
        unused_definitions_filter)
qed


lemma unused_definition_type: "dc_type (unused_definition d) \<noteq> ''unused_import''"
  by (simp add: unused_definition_def)

text \<open>
  Claim C2, as amended. One usage set is shared by all files. The result is, cut to 100
  items, the import items followed by the items of the collected non-private definitions
  whose name is used in no file of the project and is not an entry-point name. So a
  definition item is never reported for a name that some file uses or that is in the
  allow-list, and an import item is only reported when the check against the usages of its
  own file alone would report it.
\<close>

theorem detect_dead_code_usage_sets:
  "detect_dead_code files =
     take 100 (flagged_imports files @
       map unused_definition
         (filter (\<lambda>d. di_name d \<notin> project_usages files \<and> di_name d \<notin> set entry_points)
            (collected_definitions files)))
   \<and> (\<forall>item \<in> set (detect_dead_code files).
         (dc_type item = ''unused_import'' \<longrightarrow> own_file_import files item)
         \<and> (dc_type item \<noteq> ''unused_import'' \<longrightarrow>
              dc_name item \<notin> project_usages files \<and> dc_name item \<notin> set entry_points))"
proof (rule conjI)
  show "detect_dead_code files =
     take 100 (flagged_imports files @
       map unused_definition
         (filter (\<lambda>d. di_name d \<notin> project_usages files \<and> di_name d \<notin> set entry_points)
            (collected_definitions files)))"
    by (rule detect_dead_code_eq)
next
  have "(dc_type item = ''unused_import'' \<longrightarrow> own_file_import files item)
         \<and> (dc_type item \<noteq> ''unused_import'' \<longrightarrow>
              dc_name item \<notin> project_usages files \<and> dc_name item \<notin> set entry_points)"
    if "item \<in> set (detect_dead_code files)" for item
  proof -
  from that have "item \<in> set (flagged_imports files)
      \<or> item \<in> set (map unused_definition
         (filter (\<lambda>d. di_name d \<notin> project_usages files \<and> di_name d \<notin> set entry_points)
            (collected_definitions files)))"
    unfolding detect_dead_code_eq by (auto dest: in_set_takeD)
  then consider (imp) "item \<in> set (flagged_imports files)"
    | (def) d where "item = unused_definition d" "di_name d \<notin> project_usages files"
        "di_name d \<notin> set entry_points"
    by auto
  then show ?thesis
  proof cases
    case imp
    then have "own_file_import files item" and "dc_type item = ''unused_import''"
      using dead_code_files_imports [of item files "[]" "[]" "{}"]
        dead_code_files_types [of item files "[]" "[]" "{}"]
      by (simp_all add: flagged_imports_def)
    then show ?thesis by simp
  next
    case def
    then show ?thesis
      using unused_definition_type [of d] by (simp add: unused_definition_def)
  qed
  qed
  then show "\<forall>item \<in> set (detect_dead_code files).
         (dc_type item = ''unused_import'' \<longrightarrow> own_file_import files item)
         \<and> (dc_type item \<noteq> ''unused_import'' \<longrightarrow>
              dc_name item \<notin> project_usages files \<and> dc_name item \<notin> set entry_points)"
    by blast
qed

theorem detect_dead_code_usage_sets_witness:
  "detect_dead_code
     [\<lparr>relative_path = ''a.py'', file_lines = None,
       tree = Some (Other [Import 1 [Alias ''os'' None], FunctionDef ''helper'' 2 [Other []],
                           FunctionDef ''main'' 4 [Other []]])\<rparr>]
     = [unused_import ''a.py'' 1 ''os'' ''os'',
        unused_definition \<lparr>di_file = ''a.py'', di_name = ''helper'', di_line = 2,
                           di_type = ''function''\<rparr>]
   \<and> own_file_import
       [\<lparr>relative_path = ''a.py'', file_lines = None,
         tree = Some (Other [Import 1 [Alias ''os'' None], FunctionDef ''helper'' 2 [Other []],
                             FunctionDef ''main'' 4 [Other []]])\<rparr>]
       (unused_import ''a.py'' 1 ''os'' ''os'')
   \<and> ''helper'' \<notin> project_usages
       [\<lparr>relative_path = ''a.py'', file_lines = None,
         tree = Some (Other [Import 1 [Alias ''os'' None], FunctionDef ''helper'' 2 [Other []],
                             FunctionDef ''main'' 4 [Other []]])\<rparr>]"
proof -
  let ?fs = "[\<lparr>relative_path = ''a.py'', file_lines = None,
       tree = Some (Other [Import 1 [Alias ''os'' None], FunctionDef ''helper'' 2 [Other []],
                           FunctionDef ''main'' 4 [Other []]])\<rparr>]"
  let ?d = "unused_definition \<lparr>di_file = ''a.py'', di_name = ''helper'', di_line = 2,
                           di_type = ''function''\<rparr>"
  have v: "detect_dead_code ?fs = [unused_import ''a.py'' 1 ''os'' ''os'', ?d]"
    by (simp add: detect_dead_code_def walk_def import_bound_name_def entry_points_def Let_def)
  have t1: "dc_type (unused_import ''a.py'' 1 ''os'' ''os'') = ''unused_import''"
    by (simp add: unused_import_def)
  have t2: "dc_type ?d \<noteq> ''unused_import''" "dc_name ?d = ''helper''"
    by (simp_all add: unused_definition_def)
  have q: "\<forall>item \<in> set (detect_dead_code ?fs).
         (dc_type item = ''unused_import'' \<longrightarrow> own_file_import ?fs item)
         \<and> (dc_type item \<noteq> ''unused_import'' \<longrightarrow>
              dc_name item \<notin> project_usages ?fs \<and> dc_name item \<notin> set entry_points)"
    using detect_dead_code_usage_sets [of ?fs] by (rule conjunct2)
  have m1: "unused_import ''a.py'' 1 ''os'' ''os'' \<in> set (detect_dead_code ?fs)"
    and m2: "?d \<in> set (detect_dead_code ?fs)"
    unfolding v by simp_all
  from q m1 t1 have "own_file_import ?fs (unused_import ''a.py'' 1 ''os'' ''os'')"
    by blast
  moreover from q m2 t2 have "''helper'' \<notin> project_usages ?fs"
    by metis
  ultimately show ?thesis using v by blast
qed

text \<open>
  Claim C2 as stated fails: \<open>helper\<close> is defined in \<open>a.py\<close>, is not private, is not an
  entry-point name and is used nowhere in \<open>a.py\<close>; the call in \<open>b.py\<close> keeps it from
  being flagged.
\<close>

theorem detect_dead_code_other_file_counterexample:
  "detect_dead_code
     [\<lparr>relative_path = ''a.py'', file_lines = None,
       tree = Some (Other [FunctionDef ''helper'' 1 [Other []]])\<rparr>,
      \<lparr>relative_path = ''b.py'', file_lines = None,
       tree = Some (Other [ImportFrom (Some ''a'') 1 [Alias ''helper'' None],
                           Other [Call (Name ''helper'') []]])\<rparr>] = []
   \<and> ''helper'' \<notin> file_usages (Other [FunctionDef ''helper'' 1 [Other []]])
   \<and> detect_dead_code
       [\<lparr>relative_path = ''a.py'', file_lines = None,
         tree = Some (Other [FunctionDef ''helper'' 1 [Other []]])\<rparr>]
     = [unused_definition \<lparr>di_file = ''a.py'', di_name = ''helper'', di_line = 1,
                            di_type = ''function''\<rparr>]"
  by (simp add: detect_dead_code_def walk_def file_usages_def from_bound_name_def
      entry_points_def Let_def)

section \<open>Dimension scores and the run\<close>

text \<open>
  What a run reads from outside: the outcome of each external tool, the findings of the
  performance and security detectors and the numbers of long conditional chains, of
  class-level instantiations and of extractable patterns (all taken as given), and the files
  that the directory filter of a dimension keeps. A project path that does not exist gives
  empty file lists: \<^verbatim>\<open>rglob\<close> yields nothing, and nothing in the source tests the path.
  \<open>dfs_frames\<close> is the number of frames the interpreter leaves to the cycle search of the
  scalability analysis.
\<close>

record finding =
  finding_file :: string
  finding_line :: int
  finding_severity :: "string option"
  finding_message :: string

text \<open>
  \<^verbatim>\<open>radon cc\<close>: the call raised (not installed, timeout); it exited with a non-zero code;
  it exited with 0 and reading its output raised, after some files were counted; or it gave,
  per file, the \<^verbatim>\<open>complexity\<close> entries of the functions (\<open>None\<close> when the key is absent).
\<close>

datatype radon_outcome =
    RadonRaised string
  | RadonExit
  | RadonBadOutput nat string
  | RadonData "(string \<times> int option list) list"

datatype bandit_outcome =
    BanditNotInstalled
  | BanditRaised string
  | BanditNoOutput
  | BanditBadOutput string
  | BanditResults "finding list"

text \<open>
  The similarity checker either gave a list of messages, of which so many are
  \<^verbatim>\<open>duplicate-code\<close>, or was of no use (not installed, no output, output that is not JSON).
\<close>

datatype pylint_outcome = PylintUnavailable | PylintDuplicates nat

record project =
  radon :: radon_outcome
  algorithmic_issues :: "finding list"
  bottlenecks :: "finding list"
  bandit :: bandit_outcome
  static_issues :: "finding list"
  scalability_files :: "source_file list"
  dfs_frames :: nat
  ocp_violations :: nat
  dip_violations :: nat
  pylint :: pylint_outcome
  reusability_files :: "source_file list"
  extractable_patterns :: nat

subsection \<open>Maintainability\<close>

definition complexity_score :: "(string \<times> int option list) list \<Rightarrow> int" where
  "complexity_score complexity_data =
     (let complexities = map (\<lambda>c. case c of None \<Rightarrow> 0 | Some k \<Rightarrow> k)
                           (concat (map snd complexity_data));
          total_complexity = sum_list complexities;
          func_count = length complexities;
          avg_complexity = (if func_count > 0
                            then rat_of_int total_complexity / rat_of_nat func_count else 0)
      in if avg_complexity \<le> 5 then 100
         else if avg_complexity \<le> 10 then 80
         else if avg_complexity \<le> 15 then 60
         else 40)"

text \<open>The result starts with \<^verbatim>\<open>'score': 0\<close>; only the branch that read the data sets it.\<close>

fun analyze_maintainability :: "radon_outcome \<Rightarrow> tracking \<Rightarrow> dimension_result \<times> tracking" where
  "analyze_maintainability (RadonRaised e) self =
     (\<lparr>score = 0\<rparr>, track_tool ''radon'' False (Some e) self)"
| "analyze_maintainability RadonExit self =
     (\<lparr>score = 0\<rparr>, track_tool ''radon'' False (Some ''non-zero exit code'') self)"
| "analyze_maintainability (RadonBadOutput counted e) self =
     (\<lparr>score = 0\<rparr>,
      track_tool ''radon'' False (Some e)
        ((track_tool ''radon'' True None self)
           \<lparr>files_analyzed := files_analyzed self + counted\<rparr>))"
| "analyze_maintainability (RadonData complexity_data) self =
     (\<lparr>score = complexity_score complexity_data\<rparr>,
      (track_tool ''radon'' True None self)
         \<lparr>files_analyzed := files_analyzed self + length complexity_data\<rparr>)"

subsection \<open>Performance and security\<close>

definition count_severity :: "string list \<Rightarrow> finding list \<Rightarrow> int" where
  "count_severity names issues =
     int (length (filter (\<lambda>i. case finding_severity i of
                                 None \<Rightarrow> False
                               | Some sev \<Rightarrow> sev \<in> set names) issues))"

definition analyze_performance :: "project \<Rightarrow> dimension_result" where
  "analyze_performance p =
     (let issues = algorithmic_issues p @ bottlenecks p;
          high_severity = count_severity [''high''] issues;
          medium_severity = count_severity [''medium''] issues;
          low_severity = count_severity [''low''] issues;
          penalty = (high_severity * 8) + (medium_severity * 3) + (low_severity * 1)
      in \<lparr>score = max 20 (100 - penalty)\<rparr>)"

fun bandit_vulnerabilities :: "bandit_outcome \<Rightarrow> finding list" where
  "bandit_vulnerabilities (BanditResults vulnerabilities) = vulnerabilities"
| "bandit_vulnerabilities b = []"

fun track_bandit :: "bandit_outcome \<Rightarrow> tracking \<Rightarrow> tracking" where
  "track_bandit BanditNotInstalled self = track_tool ''bandit'' False (Some ''not installed'') self"
| "track_bandit (BanditRaised e) self = track_tool ''bandit'' False (Some e) self"
| "track_bandit BanditNoOutput self = track_tool ''bandit'' False (Some ''no output'') self"
| "track_bandit (BanditBadOutput e) self =
     track_tool ''bandit'' False (Some e) (track_tool ''bandit'' True None self)"
| "track_bandit (BanditResults vulnerabilities) self = track_tool ''bandit'' True None self"

text \<open>
  The entry that the dependency check adds to the vulnerabilities has no \<^verbatim>\<open>severity\<close> key
  and counts in no class, so it is left out.
\<close>

definition analyze_security :: "project \<Rightarrow> tracking \<Rightarrow> dimension_result \<times> tracking" where
  "analyze_security p self =
     (let all_issues = bandit_vulnerabilities (bandit p) @ static_issues p;
          high_severity = count_severity [''HIGH'', ''high''] all_issues;
          medium_severity = count_severity [''MEDIUM'', ''medium''] all_issues;
          low_severity = count_severity [''LOW'', ''low''] all_issues;
          penalty = (high_severity * 15) + (medium_severity * 5) + (low_severity * 1)
      in (\<lparr>score = max 20 (100 - penalty)\<rparr>, track_bandit (bandit p) self))"

subsection \<open>Scalability\<close>

text \<open>
  \<^verbatim>\<open>str.replace\<close> for a non-empty \<^verbatim>\<open>old\<close>: occurrences are replaced from the left and do
  not overlap. The counter is the number of characters of a replaced occurrence still to skip.
\<close>

fun replace_skip :: "string \<Rightarrow> string \<Rightarrow> nat \<Rightarrow> string \<Rightarrow> string" where
  "replace_skip old new k [] = []"
| "replace_skip old new (Suc k) (c # cs) = replace_skip old new k cs"
| "replace_skip old new 0 (c # cs) =
     (if take (length old) (c # cs) = old
      then new @ replace_skip old new (length old - 1) cs
      else c # replace_skip old new 0 cs)"

definition replace :: "string \<Rightarrow> string \<Rightarrow> string \<Rightarrow> string" where
  "replace old new text = replace_skip old new 0 text"

fun node_imports :: "node \<Rightarrow> string list" where
  "node_imports (Import lineno names) = map alias_name names"
| "node_imports (ImportFrom modname lineno names) =
     (case modname of None \<Rightarrow> [] | Some m \<Rightarrow> if m \<noteq> [] then [m] else [])"
| "node_imports n = []"

fun build_import_graph :: "source_file list \<Rightarrow> import_graph \<Rightarrow> import_graph" where
  "build_import_graph [] import_graph = import_graph"
| "build_import_graph (f # fs) import_graph =
     (case tree f of
        None \<Rightarrow> build_import_graph fs import_graph
      | Some t \<Rightarrow>
          build_import_graph fs
            (AList.update (replace ''.py'' [] (replace ''/'' ''.'' (relative_path f)))
               (concat (map node_imports (walk t))) import_graph))"

text \<open>The exception of the cycle detector is not caught here, nor by the caller.\<close>

definition analyze_scalability :: "project \<Rightarrow> error + dimension_result" where
  "analyze_scalability p =
     (case detect_circular_dependencies (dfs_frames p)
             (build_import_graph (scalability_files p) []) of
        Inl e \<Rightarrow> Inl e
      | Inr circular_deps \<Rightarrow>
          (let god_classes = find_god_classes (scalability_files p);
               coupling_issues = find_tight_coupling (scalability_files p);
               circular_penalty = int (length circular_deps) * 10;
               god_class_penalty = int (length god_classes) * 5;
               coupling_penalty = int (length coupling_issues) * 3;
               other_penalty = (int (ocp_violations p) + int (dip_violations p)) * 2;
               total_penalty = circular_penalty + god_class_penalty + coupling_penalty
                                 + other_penalty
           in Inr \<lparr>score = max 20 (100 - total_penalty)\<rparr>))"

subsection \<open>Reusability\<close>

definition analyze_reusability :: "project \<Rightarrow> dimension_result" where
  "analyze_reusability p =
     (let duplicate_blocks =
            (case pylint p of
               PylintDuplicates n \<Rightarrow> n
             | PylintUnavailable \<Rightarrow>
                 length (detect_duplicates_with_hashing (reusability_files p)));
          dead_code = detect_dead_code (reusability_files p);
          duplication_penalty = int duplicate_blocks * 3;
          dead_code_penalty = int (length dead_code) * 1;
          extractable_bonus = min (int (extractable_patterns p) * 2) 10;
          total_penalty = duplication_penalty + dead_code_penalty - extractable_bonus
      in \<lparr>score = max 20 (100 - total_penalty)\<rparr>)"

subsection \<open>The run\<close>

text \<open>
  \<^verbatim>\<open>overall_health\<close> is a rounded sum of floats and is not part of the report modelled
  here. The dimensions are entered in the fixed order of the five \<^verbatim>\<open>if\<close> statements.
\<close>

record report =
  dimensions :: "(string \<times> dimension_result) list"
  priority_actions :: "priority_action list"
  report_meta :: meta

definition initial_tracking :: tracking where
  "initial_tracking = \<lparr>tools_used = [], tools_failed = [], files_analyzed = 0, files_skipped = 0\<rparr>"

definition analyze :: "string list \<Rightarrow> project \<Rightarrow> error + report" where
  "analyze requested p =
     (let self = initial_tracking;
          results = [];
          (results, self) =
            (if ''maintainability'' \<in> set requested
             then (let (r, self') = analyze_maintainability (radon p) self
                   in (AList.update ''maintainability'' r results, self'))
             else (results, self));
          results =
            (if ''performance'' \<in> set requested
             then AList.update ''performance'' (analyze_performance p) results
             else results);
          (results, self) =
            (if ''security'' \<in> set requested
             then (let (r, self') = analyze_security p self
                   in (AList.update ''security'' r results, self'))
             else (results, self))
      in case (if ''scalability'' \<in> set requested
               then (case analyze_scalability p of
                       Inl e \<Rightarrow> Inl e
                     | Inr r \<Rightarrow> Inr (AList.update ''scalability'' r results))
               else Inr results) of
           Inl e \<Rightarrow> Inl e
         | Inr results \<Rightarrow>
             (let results =
                    (if ''reusability'' \<in> set requested
                     then AList.update ''reusability'' (analyze_reusability p) results
                     else results)
              in Inr \<lparr>dimensions = results,
                      priority_actions = generate_priority_actions results,
                      report_meta = finalize_meta self\<rparr>))"

text \<open>
  \<^verbatim>\<open>main\<close>: the dimensions are all five for \<^verbatim>\<open>--all\<close> or \<^verbatim>\<open>all\<close>, else the stripped
  parts of the comma-separated argument; no name is checked. \<^verbatim>\<open>check_dependencies\<close> only
  prints, skipping unknown names. The exit code is 0.
\<close>

fun split_on :: "char \<Rightarrow> string \<Rightarrow> string \<Rightarrow> string list" where
  "split_on sep [] word = [word]"
| "split_on sep (c # cs) word =
     (if c = sep then word # split_on sep cs [] else split_on sep cs (word @ [c]))"

definition strip :: "string \<Rightarrow> string" where
  "strip text = rev (dropWhile isspace (rev (dropWhile isspace text)))"

definition main :: "string \<Rightarrow> bool \<Rightarrow> project \<Rightarrow> error + int \<times> report" where
  "main dimensions_arg all_flag p =
     (let requested = (if all_flag \<or> dimensions_arg = ''all'' then all_dimensions
                       else map strip (split_on CHR '','' dimensions_arg []))
      in case analyze requested p of
           Inl e \<Rightarrow> Inl e
         | Inr results \<Rightarrow> Inr (0, results))"

subsection \<open>Examples and properties of the run\<close>

text \<open>
  A project at a path that does not exist: no files, and tools that fail. A project of one
  file with three \<^verbatim>\<open>json.loads\<close> calls, where the complexity tool is not installed and the
  pattern detector reports one extractable pattern. The cycle search has the frames of the
  interpreter's limit but the one of its caller, which is more than a run leaves it.
\<close>

definition missing_project :: project where
  "missing_project =
     \<lparr>radon = RadonExit, algorithmic_issues = [], bottlenecks = [],
      bandit = BanditNoOutput, static_issues = [], scalability_files = [],
      dfs_frames = recursion_limit - 1, ocp_violations = 0, dip_violations = 0, pylint = PylintUnavailable,
      reusability_files = [], extractable_patterns = 0\<rparr>"

definition json_file :: source_file where
  "json_file =
     \<lparr>relative_path = ''u.py'',
      file_lines = Some [''import json'' @ [CHR 0x0A], ''a = json.loads(s1)'' @ [CHR 0x0A],
                         ''b = json.loads(s2)'' @ [CHR 0x0A], ''c = json.loads(s3)'' @ [CHR 0x0A]],
      tree = Some (Other
        [Import 1 [Alias ''json'' None],
         Other [Name ''a'', Call (Attribute (Name ''json'') ''loads'') [Name ''s1'']],
         Other [Name ''b'', Call (Attribute (Name ''json'') ''loads'') [Name ''s2'']],
         Other [Name ''c'', Call (Attribute (Name ''json'') ''loads'') [Name ''s3'']]])\<rparr>"

definition json_project :: project where
  "json_project =
     \<lparr>radon = RadonRaised ''No such file or directory: radon'', algorithmic_issues = [],
      bottlenecks = [], bandit = BanditNotInstalled, static_issues = [],
      scalability_files = [json_file], dfs_frames = recursion_limit - 1,
      ocp_violations = 0, dip_violations = 0,
      pylint = PylintUnavailable, reusability_files = [json_file],
      extractable_patterns = 1\<rparr>"


lemma known_requested:
  "x \<in> set all_dimensions \<Longrightarrow>
     x \<in> set (filter (\<lambda>d. d \<in> set all_dimensions) requested) \<longleftrightarrow> x \<in> set requested"
  by simp

lemma analyze_ignores_unknown:
  "analyze requested p = analyze (filter (\<lambda>d. d \<in> set all_dimensions) requested) p"
proof -
  have "''maintainability'' \<in> set all_dimensions" "''performance'' \<in> set all_dimensions"
    "''security'' \<in> set all_dimensions" "''scalability'' \<in> set all_dimensions"
    "''reusability'' \<in> set all_dimensions"
    by (simp_all add: all_dimensions_def)
  note m = this [THEN known_requested]
  show ?thesis unfolding analyze_def m ..
qed

text \<open>The names of the dimensions entered, in the order of the five \<^verbatim>\<open>if\<close> statements.\<close>

lemma analyze_raises:
  assumes "analyze requested p = Inl e"
  shows "''scalability'' \<in> set requested
     \<and> detect_circular_dependencies (dfs_frames p)
          (build_import_graph (scalability_files p) []) = Inl e"
  using assms
  by (auto simp: analyze_def analyze_scalability_def Let_def split_beta
      split: if_splits sum.splits)

lemma analyze_scalability_no_files:
  "scalability_files p = [] \<Longrightarrow> \<exists>r. analyze_scalability p = Inr r"
  by (simp add: analyze_scalability_def detect_circular_dependencies_def Let_def)

lemma analyze_dimension_names:
  assumes "analyze requested p = Inr r"
  shows "map fst (dimensions r) = filter (\<lambda>d. d \<in> set requested) all_dimensions"
  using assms
  by (auto simp: analyze_def Let_def split_beta all_dimensions_def
      split: if_splits sum.splits)


definition cyclic_project :: project where
  "cyclic_project =
     missing_project\<lparr>scalability_files :=
       [\<lparr>relative_path = ''A.py'', file_lines = None,
         tree = Some (Other [Import 1 [Alias ''B'' None]])\<rparr>,
        \<lparr>relative_path = ''B.py'', file_lines = None,
         tree = Some (Other [Import 1 [Alias ''A'' None]])\<rparr>,
        \<lparr>relative_path = ''X.py'', file_lines = None,
         tree = Some (Other [Import 1 [Alias ''A'' None]])\<rparr>]\<rparr>"

definition security_report :: report where
  "security_report =
     \<lparr>dimensions = [(''security'', \<lparr>score = 100\<rparr>)], priority_actions = [],
      report_meta = \<lparr>meta_tools_used = [], meta_tools_failed = [''bandit''],
                      coverage_files_analyzed = 0, coverage_files_skipped = 0,
                      confidence = 7 / 10\<rparr>\<rparr>"

text \<open>The runs of the examples, step by step.\<close>

lemma missing_project_security:
  "analyze_security missing_project initial_tracking
     = (\<lparr>score = 100\<rparr>,
        \<lparr>tools_used = [], tools_failed = [(''bandit'', ''no output'')],
         files_analyzed = 0, files_skipped = 0\<rparr>)"
  by (simp add: analyze_security_def missing_project_def count_severity_def
      initial_tracking_def track_tool_def)

lemma bandit_failed_meta:
  "finalize_meta \<lparr>tools_used = [], tools_failed = [(''bandit'', ''no output'')],
                   files_analyzed = 0, files_skipped = 0\<rparr>
     = \<lparr>meta_tools_used = [], meta_tools_failed = [''bandit''],
        coverage_files_analyzed = 0, coverage_files_skipped = 0, confidence = 7 / 10\<rparr>"
  by (simp add: finalize_meta_def expected_tools_def round2_def round_half_even_def)

lemma no_action_at_100: "generate_priority_actions [(''security'', \<lparr>score = 100\<rparr>)] = []"
  by (simp add: generate_priority_actions_def)

lemma missing_project_security_run:
  "analyze [''security'', ''bogus''] missing_project = Inr security_report"
  by (simp add: analyze_def Let_def missing_project_security bandit_failed_meta
      no_action_at_100 security_report_def)

lemma cyclic_project_graph:
  "build_import_graph (scalability_files cyclic_project) []
     = [(''A'', [''B'']), (''B'', [''A'']), (''X'', [''A''])]"
  by (simp add: cyclic_project_def missing_project_def walk_def replace_def)

lemma cyclic_project_frames: "dfs_frames cyclic_project = recursion_limit - 1"
  by (simp add: cyclic_project_def missing_project_def)

lemma cyclic_project_detect:
  "detect_circular_dependencies (dfs_frames cyclic_project)
     (build_import_graph (scalability_files cyclic_project) []) = Inl ValueError"
  unfolding cyclic_project_frames frames_left cyclic_project_graph
  by (rule detect_stale_rec_stack)

lemma cyclic_project_scalability: "analyze_scalability cyclic_project = Inl ValueError"
  by (simp add: analyze_scalability_def cyclic_project_detect)

lemma cyclic_project_run: "analyze [''scalability''] cyclic_project = Inl ValueError"
  by (simp add: analyze_def Let_def cyclic_project_scalability)

text \<open>
  Claim C8, as amended. Neither the dimension names nor the project path are checked. A run
  with names outside the five is the run with those names left out; when it returns, the
  report holds the requested dimensions among the five, in their fixed order; it raises only
  when the cycle detector raises during the scalability analysis, and then the same
  exception; without files, as for a path that does not exist, it returns a report; the exit
  code of \<open>main\<close> is 0.
\<close>

theorem analyze_checks_nothing:
  "analyze requested p = analyze (filter (\<lambda>d. d \<in> set all_dimensions) requested) p
   \<and> (analyze requested1 p1 = Inl e \<longrightarrow>
        ''scalability'' \<in> set requested1
        \<and> detect_circular_dependencies (dfs_frames p1)
             (build_import_graph (scalability_files p1) []) = Inl e)
   \<and> (analyze requested2 p2 = Inr r \<longrightarrow>
        map fst (dimensions r) = filter (\<lambda>d. d \<in> set requested2) all_dimensions)
   \<and> (scalability_files p3 = [] \<longrightarrow> (\<exists>r3. analyze requested3 p3 = Inr r3))
   \<and> (main dimensions_arg all_flag p4 = Inr (code, r4) \<longrightarrow> code = 0)"
proof (intro conjI impI)
  show "analyze requested p = analyze (filter (\<lambda>d. d \<in> set all_dimensions) requested) p"
    by (rule analyze_ignores_unknown)
next
  assume "analyze requested1 p1 = Inl e"
  then show "''scalability'' \<in> set requested1"
    and "detect_circular_dependencies (dfs_frames p1)
           (build_import_graph (scalability_files p1) []) = Inl e"
    by (simp_all add: analyze_raises)
next
  assume "analyze requested2 p2 = Inr r"
  then show "map fst (dimensions r) = filter (\<lambda>d. d \<in> set requested2) all_dimensions"
    by (rule analyze_dimension_names)
next
  assume e: "scalability_files p3 = []"
  show "\<exists>r3. analyze requested3 p3 = Inr r3"
  proof (cases "analyze requested3 p3")
    case (Inl err)
    then have "detect_circular_dependencies (dfs_frames p3)
        (build_import_graph (scalability_files p3) []) = Inl err"
      by (simp add: analyze_raises)
    with e show ?thesis by (simp add: detect_circular_dependencies_def)
  next
    case (Inr r3)
    then show ?thesis by simp
  qed
next
  assume "main dimensions_arg all_flag p4 = Inr (code, r4)"
  then show "code = 0"
    by (auto simp: main_def Let_def split: sum.splits)
qed

theorem analyze_checks_nothing_witness:
  "analyze [''scalability''] cyclic_project = Inl ValueError
   \<and> detect_circular_dependencies (dfs_frames cyclic_project)
        (build_import_graph (scalability_files cyclic_project) []) = Inl ValueError
   \<and> analyze [''security'', ''bogus''] missing_project = Inr security_report
   \<and> map fst (dimensions security_report)
       = filter (\<lambda>d. d \<in> set [''security'', ''bogus'']) all_dimensions
   \<and> scalability_files missing_project = []
   \<and> (\<exists>r. analyze all_dimensions missing_project = Inr r)
   \<and> main ''security, bogus'' False missing_project = Inr (0, security_report)"
proof -
  note h1 = cyclic_project_run
  note h2 = missing_project_security_run
  have h3: "scalability_files missing_project = []"
    by (simp add: missing_project_def)
  have h4: "main ''security, bogus'' False missing_project = Inr (0, security_report)"
    by (simp add: main_def Let_def strip_def isspace_def h2)
  note t = analyze_checks_nothing
    [of "[''security'', ''bogus'']" missing_project "[''scalability'']" cyclic_project ValueError
        "[''security'', ''bogus'']" missing_project security_report missing_project
        all_dimensions "''security, bogus''" False missing_project 0 security_report]
  from t h1 h2 h3 h4 show ?thesis by blast
qed

text \<open>
  Claim C8 as stated fails: with the unknown name \<open>bogus\<close> among the dimensions and a
  project without files, the run analyses security and returns a report with exit code 0.
\<close>

theorem main_unknown_dimension_counterexample:
  "main ''security,bogus'' False missing_project
     = Inr (0,
         \<lparr>dimensions = [(''security'', \<lparr>score = 100\<rparr>)], priority_actions = [],
          report_meta = \<lparr>meta_tools_used = [], meta_tools_failed = [''bandit''],
                          coverage_files_analyzed = 0, coverage_files_skipped = 0,
                          confidence = 7 / 10\<rparr>\<rparr>)"
  using missing_project_security_run
  by (simp add: main_def Let_def strip_def isspace_def security_report_def)

lemma json_project_maintainability:
  "fst (analyze_maintainability (radon json_project) self) = \<lparr>score = 0\<rparr>"
  by (simp add: json_project_def)

lemma json_project_performance: "analyze_performance json_project = \<lparr>score = 100\<rparr>"
  by (simp add: json_project_def analyze_performance_def count_severity_def)

lemma json_project_security:
  "fst (analyze_security json_project self) = \<lparr>score = 100\<rparr>"
  by (simp add: json_project_def analyze_security_def count_severity_def)

lemma json_project_graph:
  "build_import_graph (scalability_files json_project) [] = [(''u'', [''json''])]"
  by (simp add: json_project_def json_file_def walk_def replace_def)

lemma detect_outside_import:
  "detect_circular_dependencies (Suc k) [(''u'', [''json''])] = Inr []"
  by (simp add: detect_circular_dependencies_def modules_def imports_of_def)

lemma json_project_frames: "dfs_frames json_project = recursion_limit - 1"
  by (simp add: json_project_def)

lemma json_project_detect:
  "detect_circular_dependencies (dfs_frames json_project)
     (build_import_graph (scalability_files json_project) []) = Inr []"
  unfolding json_project_frames frames_left json_project_graph
  by (rule detect_outside_import)

lemma json_project_scalability: "analyze_scalability json_project = Inr \<lparr>score = 100\<rparr>"
  unfolding analyze_scalability_def json_project_detect
  by (simp add: json_project_def json_file_def find_god_classes_def find_tight_coupling_def
      walk_def Let_def)

lemma json_project_reusability: "analyze_reusability json_project = \<lparr>score = 102\<rparr>"
  by (simp add: json_project_def json_file_def analyze_reusability_def walk_def
      detect_duplicates_with_hashing_def block_indices_def block_size_def
      detect_dead_code_def import_bound_name_def entry_points_def Let_def)

text \<open>
  Claim C1 fails on the code. With the complexity tool not installed the maintainability
  score stays at its initial 0, and with one extractable pattern and nothing else found the
  reusability score is 102.
\<close>

theorem scores_outside_range:
  "map_sum id dimensions (analyze all_dimensions json_project)
     = Inr [(''maintainability'', \<lparr>score = 0\<rparr>), (''performance'', \<lparr>score = 100\<rparr>),
            (''security'', \<lparr>score = 100\<rparr>), (''scalability'', \<lparr>score = 100\<rparr>),
            (''reusability'', \<lparr>score = 102\<rparr>)]"
  by (simp add: analyze_def Let_def split_beta all_dimensions_def
      json_project_maintainability json_project_performance json_project_security json_project_scalability
      json_project_reusability)

text \<open>The ranges the five computations do keep.\<close>

lemma analyze_performance_range:
  "20 \<le> score (analyze_performance p) \<and> score (analyze_performance p) \<le> 100"
  by (simp add: analyze_performance_def count_severity_def Let_def)

lemma analyze_security_range:
  "20 \<le> score (fst (analyze_security p self)) \<and> score (fst (analyze_security p self)) \<le> 100"
  by (simp add: analyze_security_def count_severity_def Let_def)

lemma analyze_scalability_range:
  "analyze_scalability p = Inr r \<Longrightarrow> 20 \<le> score r \<and> score r \<le> 100"
  by (auto simp: analyze_scalability_def Let_def split: sum.splits)

lemma analyze_maintainability_values:
  "score (fst (analyze_maintainability outcome self)) \<in> {0, 40, 60, 80, 100}"
  by (cases outcome) (simp_all add: complexity_score_def Let_def)

lemma analyze_reusability_range:
  "20 \<le> score (analyze_reusability p) \<and> score (analyze_reusability p) \<le> 110"
  by (simp add: analyze_reusability_def Let_def split: pylint_outcome.split)

end
